theory Spec2Isabelle
  imports Complex_Main
begin

section \<open>Geographic utilities (utils/geoUtils.js)\<close>

text \<open>
  JavaScript numbers are modelled as real numbers: the arithmetic of
  \<^verbatim>\<open>calculateDistance\<close> and \<^verbatim>\<open>calculateEstimatedDuration\<close> is
  read over the reals, not over IEEE doubles.  The one non-real value that the
  code can produce, \<^verbatim>\<open>NaN\<close>, is a value of its own.
\<close>

datatype jsnum = Num (numberOf: real) | NaN

text \<open>
  A property read \<^verbatim>\<open>obj[key]\<close> on an object literal finds the literal's own
  properties first and then the properties that every plain object inherits from
  \<^verbatim>\<open>Object.prototype\<close> (functions, and the prototype object itself for
  \<^verbatim>\<open>__proto__\<close>); any other key reads \<^verbatim>\<open>undefined\<close>.
\<close>

datatype property = Own real | Inherited | Undefined

definition objectPrototypeKeys :: "string list" where
  "objectPrototypeKeys =
     [''constructor'', ''hasOwnProperty'', ''isPrototypeOf'', ''propertyIsEnumerable'',
      ''toLocaleString'', ''toString'', ''valueOf'', ''__proto__'',
      ''__defineGetter__'', ''__defineSetter__'', ''__lookupGetter__'', ''__lookupSetter__'']"

definition getProperty :: "(string \<times> real) list \<Rightarrow> string \<Rightarrow> property" where
  "getProperty obj key =
     (case map_of obj key of
        Some v \<Rightarrow> Own v
      | None \<Rightarrow> if key \<in> set objectPrototypeKeys then Inherited else Undefined)"

definition averageSpeeds :: "(string \<times> real) list" where
  "averageSpeeds = [(''bike'', 25), (''car'', 30), (''auto'', 20)]"

text \<open>
  \<^verbatim>\<open>const speed = averageSpeeds[vehicleType] || averageSpeeds.car\<close>: the
  right operand is taken when the left one is falsy (\<^verbatim>\<open>undefined\<close> or 0); an
  inherited function or object is truthy and converts to \<^verbatim>\<open>NaN\<close> in the
  division.  The argument is optional and defaults to \<^verbatim>\<open>'car'\<close>.
  \<^verbatim>\<open>Math.round\<close> rounds halves up, as \<^const>\<open>round\<close> does.
\<close>

definition speedOf :: "string \<Rightarrow> jsnum" where
  "speedOf vehicleType =
     (case getProperty averageSpeeds vehicleType of
        Own v \<Rightarrow> if v = 0 then Num 30 else Num v
      | Inherited \<Rightarrow> NaN
      | Undefined \<Rightarrow> Num 30)"

definition calculateEstimatedDuration :: "real \<Rightarrow> string option \<Rightarrow> jsnum" where
  "calculateEstimatedDuration distance vehicleTypeArg =
     (let vehicleType = (case vehicleTypeArg of None \<Rightarrow> ''car'' | Some v \<Rightarrow> v)
      in case speedOf vehicleType of
           NaN \<Rightarrow> NaN
         | Num speed \<Rightarrow>
             (let duration = (distance / speed) * 60
              in Num (of_int (round (duration * 1.2)))))"

text \<open>
  \<^verbatim>\<open>x.toFixed(2)\<close> followed by \<^verbatim>\<open>parseFloat\<close>: the nearest multiple of
  1/100, the larger magnitude when two are equally near, with the sign of \<open>x\<close>.
\<close>

definition toFixed2 :: "real \<Rightarrow> real" where
  "toFixed2 x = sgn x * of_int \<lfloor>\<bar>x\<bar> * 100 + 1 / 2\<rfloor> / 100"

text \<open>
  \<^verbatim>\<open>geolib.getDistance\<close> belongs to a package outside the repository; it is a
  parameter of \<^verbatim>\<open>calculateDistance\<close>.  The two points are any JavaScript values.
  The call returns a number of metres, or returns \<^verbatim>\<open>NaN\<close> (which it does, without
  raising, for arguments whose coordinates it cannot read), or raises (\<open>Inl\<close>).
  The \<^verbatim>\<open>try/catch\<close> turns every exception into the distance 0.  Nothing guards
  against \<^verbatim>\<open>NaN\<close>: \<^verbatim>\<open>NaN / 1000\<close> is \<^verbatim>\<open>NaN\<close>, its \<^verbatim>\<open>toFixed(2)\<close> is the
  string \<^verbatim>\<open>'NaN'\<close>, and \<^verbatim>\<open>parseFloat\<close> reads that as \<^verbatim>\<open>NaN\<close>.
\<close>

definition calculateDistance :: "('p \<Rightarrow> 'p \<Rightarrow> 'e + jsnum) \<Rightarrow> 'p \<Rightarrow> 'p \<Rightarrow> jsnum" where
  "calculateDistance getDistance point1 point2 =
     (case getDistance point1 point2 of
        Inr distance \<Rightarrow>
          (case distance of
             Num metres \<Rightarrow> Num (toFixed2 (metres / 1000))
           | NaN \<Rightarrow> NaN)
      | Inl error \<Rightarrow> Num 0)"

record point =
  latitude :: real
  longitude :: real

definition validateCoordinates :: "real \<Rightarrow> real \<Rightarrow> bool" where
  "validateCoordinates lat lng \<longleftrightarrow> lat \<ge> -90 \<and> lat \<le> 90 \<and> lng \<ge> -180 \<and> lng \<le> 180"

definition toRadians :: "real \<Rightarrow> real" where
  "toRadians degrees = degrees * (pi / 180)"

text \<open>
  Modelled from the spec: \<^verbatim>\<open>geolib.getDistance\<close>, which is not part of the
  repository's sources.  The specification describes it as the haversine great-circle
  formula; the distance is in whole metres on a sphere of radius 6371 km, the formula and
  radius that the repository's own socket service uses for the same purpose.  It does
  not raise on a pair of numeric coordinates.
\<close>

definition haversine :: "point \<Rightarrow> point \<Rightarrow> real" where
  "haversine p q =
     (let dLat = toRadians (latitude q - latitude p);
          dLon = toRadians (longitude q - longitude p);
          a = sin (dLat / 2) * sin (dLat / 2)
              + cos (toRadians (latitude p)) * cos (toRadians (latitude q))
                * sin (dLon / 2) * sin (dLon / 2)
      in 6371000 * (2 * arcsin (sqrt a)))"

definition geolib_getDistance :: "point \<Rightarrow> point \<Rightarrow> unit + jsnum" where
  "geolib_getDistance p q = Inr (Num (of_int (round (haversine p q))))"

section \<open>The order document (models/Order.js)\<close>

text \<open>
  Times are milliseconds since the epoch.  Identifiers (\<^verbatim>\<open>orderId\<close>, the
  \<^verbatim>\<open>_id\<close> of a user) are strings.  Only the fields that the assignment service
  reads or writes are kept.
\<close>

datatype attemptResponse = Pending | Accepted | Declined | Timeout

record attempt =
  attemptDriver :: string
  attemptedAt :: nat
  response :: attemptResponse
  respondedAt :: "nat option"

record order =
  orderId :: string
  customer :: string
  driver :: "string option"
  pickupLocation :: point
  status :: string
  paymentStatus :: string
  acceptedAt :: "nat option"
  pickupStartedAt :: "nat option"
  pickedUpAt :: "nat option"
  deliveredAt :: "nat option"
  cancelledAt :: "nat option"
  assignmentAttempts :: "attempt list"
  isLocked :: bool
  lockedBy :: "string option"
  lockExpiration :: "nat option"

text \<open>The values that the schema allows for \<^verbatim>\<open>status\<close>.\<close>

definition statusEnum :: "string list" where
  "statusEnum = [''pending'', ''accepted'', ''pickup_started'', ''picked_up'',
                 ''in_transit'', ''delivered'', ''cancelled'']"

text \<open>
  \<^verbatim>\<open>updateStatus(newStatus, driverId = null)\<close> has two parameters; a third
  argument of a call is dropped.
\<close>

definition updateStatus :: "nat \<Rightarrow> string \<Rightarrow> string option \<Rightarrow> order \<Rightarrow> order" where
  "updateStatus now newStatus driverIdArg this =
     (let this = this\<lparr>status := newStatus\<rparr>
      in if newStatus = ''accepted'' then this\<lparr>acceptedAt := Some now, driver := driverIdArg\<rparr>
         else if newStatus = ''pickup_started'' then this\<lparr>pickupStartedAt := Some now\<rparr>
         else if newStatus = ''picked_up'' then this\<lparr>pickedUpAt := Some now\<rparr>
         else if newStatus = ''delivered'' then this\<lparr>deliveredAt := Some now, paymentStatus := ''paid''\<rparr>
         else if newStatus = ''cancelled'' then this\<lparr>cancelledAt := Some now\<rparr>
         else this)"

definition lockForDriver :: "nat \<Rightarrow> string \<Rightarrow> real \<Rightarrow> order \<Rightarrow> order" where
  "lockForDriver now driverIdArg timeoutMinutes this =
     this\<lparr>isLocked := True, lockedBy := Some driverIdArg,
          lockExpiration := Some (now + nat \<lfloor>timeoutMinutes * 60 * 1000\<rfloor>)\<rparr>"

definition releaseLock :: "order \<Rightarrow> order" where
  "releaseLock this = this\<lparr>isLocked := False, lockedBy := None, lockExpiration := None\<rparr>"

section \<open>The world of the assignment service\<close>

record user =
  userId :: string
  userType :: string
  isActive :: bool
  isAvailable :: bool
  currentLocation :: point

record candidate =
  cUser :: user
  distanceToPickup :: real

text \<open>
  What the service takes from outside the repository: the distance by which MongoDB's
  \<^verbatim>\<open>$near\<close> selects and orders documents (metres), geolib's
  \<^verbatim>\<open>getDistance\<close>, and the environment variable \<^verbatim>\<open>ORDER_LOCK_TIMEOUT\<close>
  as \<^verbatim>\<open>parseInt\<close> reads it (\<open>None\<close> when it is unset or not a number).
  The service calls \<^verbatim>\<open>getDistance\<close> only on the coordinate objects that it builds
  itself from the numbers of a stored pickup point and of a driver's GeoJSON position
  matched by \<^verbatim>\<open>$near\<close>; on two pairs of numbers \<^verbatim>\<open>getDistance\<close> returns a
  number of metres or raises, and \<open>metres\<close> hands that to \<^verbatim>\<open>calculateDistance\<close>.
\<close>

record env =
  nearDistance :: "point \<Rightarrow> point \<Rightarrow> real"
  getDistance :: "point \<Rightarrow> point \<Rightarrow> unit + real"
  ORDER_LOCK_TIMEOUT :: "nat option"

definition metres :: "('p \<Rightarrow> 'p \<Rightarrow> 'e + real) \<Rightarrow> 'p \<Rightarrow> 'p \<Rightarrow> 'e + jsnum" where
  "metres numberOrRaise point1 point2 =
     (case numberOrRaise point1 point2 of Inl error \<Rightarrow> Inl error | Inr distance \<Rightarrow> Inr (Num distance))"

datatype event = Emit string string string

text \<open>
  The state: the two MongoDB collections, the Redis keys with their values and expiry
  times, the socket events emitted so far (room, event name, order id) and the pending
  \<^verbatim>\<open>setTimeout\<close> callbacks (delay, order to assign again).  \<open>redisFaults\<close> is the
  availability of the Redis server, one entry for each coming command: \<open>True\<close> makes that
  command throw; after the list is used up every command succeeds.  MongoDB is taken
  to be reachable; a \<^verbatim>\<open>save\<close> fails only in the schema's validation.
\<close>

record world =
  orders :: "order list"
  users :: "user list"
  redisStore :: "string \<rightharpoonup> string \<times> nat"
  redisFaults :: "bool list"
  emitted :: "event list"
  timers :: "(nat \<times> string) list"

datatype error =
    NotFound                 \<comment> \<open>'Order not found'\<close>
  | InvalidState             \<comment> \<open>'Order is not in pending status'\<close>
  | AlreadyInProgress        \<comment> \<open>'Order assignment already in progress'\<close>
  | NoDriversAvailable       \<comment> \<open>'No available drivers found nearby'\<close>
  | NoDriverAcceptedOffer    \<comment> \<open>'No driver accepted the order'\<close>
  | StaleOrExpiredOffer      \<comment> \<open>'Invalid or expired lock'\<close>
  | StoreUnavailable         \<comment> \<open>an error thrown by the Redis client\<close>
  | ValidationError          \<comment> \<open>Mongoose's validation error\<close>

text \<open>
  An asynchronous method is a function from the world to a result and the new world.
  An exception (\<open>Inl\<close>) keeps the changes made before it was thrown.
\<close>

type_synonym 'a prog = "world \<Rightarrow> (error + 'a) \<times> world"

definition ret :: "'a \<Rightarrow> 'a prog" where
  "ret x = (\<lambda>w. (Inr x, w))"

definition throw :: "error \<Rightarrow> 'a prog" where
  "throw e = (\<lambda>w. (Inl e, w))"

definition bindP :: "'a prog \<Rightarrow> ('a \<Rightarrow> 'b prog) \<Rightarrow> 'b prog" where
  "bindP m f = (\<lambda>w. case m w of (Inl e, w') \<Rightarrow> (Inl e, w') | (Inr x, w') \<Rightarrow> f x w')"

definition tryCatch :: "'a prog \<Rightarrow> (error \<Rightarrow> 'a prog) \<Rightarrow> 'a prog" where
  "tryCatch m handler = (\<lambda>w. case m w of (Inl e, w') \<Rightarrow> handler e w' | (Inr x, w') \<Rightarrow> (Inr x, w'))"

subsection \<open>Redis commands\<close>

definition redisOp :: "(world \<Rightarrow> 'a \<times> world) \<Rightarrow> 'a prog" where
  "redisOp f =
     (\<lambda>w. case redisFaults w of
             [] \<Rightarrow> (case f w of (x, w') \<Rightarrow> (Inr x, w'))
           | fault # rest \<Rightarrow>
               if fault then (Inl StoreUnavailable, w\<lparr>redisFaults := rest\<rparr>)
               else (case f (w\<lparr>redisFaults := rest\<rparr>) of (x, w') \<Rightarrow> (Inr x, w')))"

definition liveValue :: "nat \<Rightarrow> (string \<times> nat) option \<Rightarrow> string option" where
  "liveValue now entry =
     (case entry of None \<Rightarrow> None | Some (v, expiry) \<Rightarrow> if now < expiry then Some v else None)"

definition redisGet :: "nat \<Rightarrow> string \<Rightarrow> string option prog" where
  "redisGet now key = redisOp (\<lambda>w. (liveValue now (redisStore w key), w))"

definition redisSetEx :: "nat \<Rightarrow> string \<Rightarrow> nat \<Rightarrow> string \<Rightarrow> unit prog" where
  "redisSetEx now key seconds v =
     redisOp (\<lambda>w. ((), w\<lparr>redisStore := (redisStore w)(key \<mapsto> (v, now + seconds * 1000))\<rparr>))"

definition redisDel :: "string \<Rightarrow> unit prog" where
  "redisDel key = redisOp (\<lambda>w. ((), w\<lparr>redisStore := (redisStore w)(key := None)\<rparr>))"

text \<open>\<^verbatim>\<open>if (value)\<close> on the reply of \<^verbatim>\<open>get\<close>: null and the empty string are falsy.\<close>

definition truthy :: "string option \<Rightarrow> bool" where
  "truthy v = (case v of None \<Rightarrow> False | Some s \<Rightarrow> s \<noteq> [])"

subsection \<open>MongoDB and socket operations\<close>

definition findOneOrder :: "string \<Rightarrow> world \<Rightarrow> order option" where
  "findOneOrder oid w = find (\<lambda>d. orderId d = oid) (orders w)"

text \<open>
  \<^verbatim>\<open>order.save()\<close> validates the document against the schema and then replaces the
  stored document of the same order id.
\<close>

definition storeDoc :: "order \<Rightarrow> order \<Rightarrow> order" where
  "storeDoc doc stored = (if orderId stored = orderId doc then doc else stored)"

definition save :: "order \<Rightarrow> unit prog" where
  "save doc =
     (\<lambda>w. if status doc \<in> set statusEnum
           then (Inr (), w\<lparr>orders := map (storeDoc doc) (orders w)\<rparr>)
           else (Inl ValidationError, w))"

text \<open>\<^verbatim>\<open>User.findByIdAndUpdate(driverId, {'driverDetails.isAvailable': false})\<close>\<close>

definition markUnavailable :: "string \<Rightarrow> user \<Rightarrow> user" where
  "markUnavailable did u = (if userId u = did then u\<lparr>isAvailable := False\<rparr> else u)"

definition setDriverUnavailable :: "string \<Rightarrow> unit prog" where
  "setDriverUnavailable did = (\<lambda>w. (Inr (), w\<lparr>users := map (markUnavailable did) (users w)\<rparr>))"

definition emit :: "string \<Rightarrow> string \<Rightarrow> string \<Rightarrow> unit prog" where
  "emit room name oid = (\<lambda>w. (Inr (), w\<lparr>emitted := emitted w @ [Emit room name oid]\<rparr>))"

definition setTimeout :: "nat \<Rightarrow> string \<Rightarrow> unit prog" where
  "setTimeout ms oid = (\<lambda>w. (Inr (), w\<lparr>timers := timers w @ [(ms, oid)]\<rparr>))"

section \<open>The assignment service (services/orderAssignmentService.js)\<close>

text \<open>
  \<^verbatim>\<open>User.find\<close> with \<^verbatim>\<open>$near\<close> returns the active, available drivers within
  \<^verbatim>\<open>radiusKm * 1000\<close> metres, nearest first; each gets the distance that
  \<^verbatim>\<open>calculateDistance\<close> computes, which is a number here (lemma
  \<open>calculateDistance_metres\<close> below), and \<^verbatim>\<open>Array.prototype.sort\<close> (stable)
  orders them by it.  The radius is optional and defaults to 5.
\<close>

definition findNearbyDrivers :: "env \<Rightarrow> point \<Rightarrow> real option \<Rightarrow> world \<Rightarrow> candidate list" where
  "findNearbyDrivers env pickup radiusArg w =
     (let radiusKm = (case radiusArg of None \<Rightarrow> 5 | Some r \<Rightarrow> r);
          drivers = sort_key (\<lambda>u. nearDistance env pickup (currentLocation u))
                      (filter (\<lambda>u. userType u = ''driver'' \<and> isActive u \<and> isAvailable u
                                    \<and> nearDistance env pickup (currentLocation u) \<le> radiusKm * 1000)
                              (users w))
      in sort_key distanceToPickup
           (map (\<lambda>u. \<lparr>cUser = u,
                       distanceToPickup =
                         numberOf (calculateDistance (metres (getDistance env)) pickup (currentLocation u))\<rparr>)
                drivers))"

record offerResult =
  success :: bool
  offeredDriver :: "string option"
  lockTimeoutSeconds :: "nat option"
  message :: string

definition offerFailed :: "string \<Rightarrow> offerResult" where
  "offerFailed reason =
     \<lparr>success = False, offeredDriver = None, lockTimeoutSeconds = None, message = reason\<rparr>"

text \<open>\<^verbatim>\<open>parseInt(process.env.ORDER_LOCK_TIMEOUT) || 300\<close>\<close>

definition lockTimeoutOf :: "env \<Rightarrow> nat" where
  "lockTimeoutOf env =
     (case ORDER_LOCK_TIMEOUT env of None \<Rightarrow> 300 | Some n \<Rightarrow> if n = 0 then 300 else n)"

text \<open>
  \<^verbatim>\<open>offerOrderToDriver\<close> returns its result together with the order object, which
  it mutates in place and which the caller passes on to the next candidate.  Its one
  \<^verbatim>\<open>try/catch\<close> encloses the whole body and answers every exception with the same
  result; it is written here once for each state of the order object in which an
  exception can arise.
\<close>

definition offerOrderToDriver :: "env \<Rightarrow> nat \<Rightarrow> order \<Rightarrow> candidate \<Rightarrow> (offerResult \<times> order) prog" where
  "offerOrderToDriver env now order drv =
     (let did = userId (cUser drv);
          driverLockKey = ''driver_lock:'' @ did;
          orderLockKey = ''order_lock:'' @ orderId order;
          caught = (\<lambda>ord error. ret (offerFailed ''Failed to offer order to driver'', ord))
      in tryCatch
           (bindP (redisGet now driverLockKey) (\<lambda>driverLock.
              if truthy driverLock
              then ret (offerFailed ''Driver is busy with another order'', order)
              else
            bindP (redisGet now orderLockKey) (\<lambda>orderLock.
              if truthy orderLock \<and> orderLock \<noteq> Some did
              then ret (offerFailed ''Order is locked by another driver'', order)
              else
            let lockTimeout = lockTimeoutOf env in
            bindP (redisSetEx now driverLockKey lockTimeout (orderId order)) (\<lambda>_.
            bindP (redisSetEx now orderLockKey lockTimeout did) (\<lambda>_.
            let order1 = lockForDriver now did (real lockTimeout / 60) order in
            tryCatch
              (bindP (save order1) (\<lambda>_.
               let order2 = order1\<lparr>assignmentAttempts := assignmentAttempts order1 @
                              [\<lparr>attemptDriver = did, attemptedAt = now,
                                response = Pending, respondedAt = None\<rparr>]\<rparr> in
               tryCatch
                 (bindP (save order2) (\<lambda>_.
                  bindP (emit (''driver:'' @ did) ''new_order_offer'' (orderId order2)) (\<lambda>_.
                  ret (\<lparr>success = True, offeredDriver = Some did,
                        lockTimeoutSeconds = Some lockTimeout,
                        message = ''Order offered to driver''\<rparr>, order2))))
                 (caught order2)))
              (caught order1))))))
           (caught order))"

text \<open>The order object after an offer to the driver \<open>did\<close> has been placed.\<close>

definition offered :: "env \<Rightarrow> nat \<Rightarrow> string \<Rightarrow> order \<Rightarrow> order" where
  "offered env now did order =
     (lockForDriver now did (real (lockTimeoutOf env) / 60) order)
       \<lparr>assignmentAttempts := assignmentAttempts order @
          [\<lparr>attemptDriver = did, attemptedAt = now, response = Pending, respondedAt = None\<rparr>]\<rparr>"

text \<open>The result of a placed offer, and the world after it.\<close>

definition offerSuccess :: "env \<Rightarrow> candidate \<Rightarrow> offerResult" where
  "offerSuccess env drv =
     \<lparr>success = True, offeredDriver = Some (userId (cUser drv)),
      lockTimeoutSeconds = Some (lockTimeoutOf env), message = ''Order offered to driver''\<rparr>"

definition placed :: "env \<Rightarrow> nat \<Rightarrow> order \<Rightarrow> candidate \<Rightarrow> world \<Rightarrow> world" where
  "placed env now order drv w =
     w\<lparr>redisStore := (redisStore w)
          (''driver_lock:'' @ userId (cUser drv) \<mapsto> (orderId order, now + lockTimeoutOf env * 1000),
           ''order_lock:'' @ orderId order \<mapsto> (userId (cUser drv), now + lockTimeoutOf env * 1000)),
       orders := map (storeDoc (offered env now (userId (cUser drv)) order))
                   (map (storeDoc (lockForDriver now (userId (cUser drv)) (real (lockTimeoutOf env) / 60) order))
                        (orders w)),
       emitted := emitted w @ [Emit (''driver:'' @ userId (cUser drv)) ''new_order_offer'' (orderId order)]\<rparr>"

text \<open>
  The two checks that \<^verbatim>\<open>offerOrderToDriver\<close> makes before it takes the locks: the
  driver is busy with another order, or the order is locked by another driver.
\<close>

definition lockedOut :: "nat \<Rightarrow> world \<Rightarrow> string \<Rightarrow> candidate \<Rightarrow> bool" where
  "lockedOut now w oid drv \<longleftrightarrow>
     truthy (liveValue now (redisStore w (''driver_lock:'' @ userId (cUser drv))))
     \<or> (truthy (liveValue now (redisStore w (''order_lock:'' @ oid)))
        \<and> liveValue now (redisStore w (''order_lock:'' @ oid)) \<noteq> Some (userId (cUser drv)))"

text \<open>
  The loop of \<^verbatim>\<open>assignOrder\<close> over the candidates: \<open>Some\<close> is the result that the
  loop returns from the method with, \<open>None\<close> means that the loop ran to its end.
\<close>

fun offerLoop :: "env \<Rightarrow> nat \<Rightarrow> string \<Rightarrow> order \<Rightarrow> candidate list \<Rightarrow> offerResult option prog" where
  "offerLoop env now lockKey order [] = ret None"
| "offerLoop env now lockKey order (drv # rest) =
     bindP (offerOrderToDriver env now order drv) (\<lambda>(assignmentResult, order').
       if success assignmentResult
       then bindP (redisDel lockKey) (\<lambda>_. ret (Some assignmentResult))
       else offerLoop env now lockKey order' rest)"

definition assignOrder :: "env \<Rightarrow> nat \<Rightarrow> string \<Rightarrow> offerResult prog" where
  "assignOrder env now oid =
     (\<lambda>w. case findOneOrder oid w of
        None \<Rightarrow> throw NotFound w
      | Some order \<Rightarrow>
          if status order \<noteq> ''pending'' then throw InvalidState w
          else
            (let lockKey = ''order_assignment:'' @ oid in
             bindP (redisGet now lockKey) (\<lambda>isLocked.
               if truthy isLocked then throw AlreadyInProgress
               else
             bindP (redisSetEx now lockKey 300 ''locked'') (\<lambda>_.
             tryCatch
               (\<lambda>w1.
                  let nearbyDrivers = findNearbyDrivers env (pickupLocation order) None w1
                  in (if nearbyDrivers = []
                      then bindP (redisDel lockKey) (\<lambda>_. throw NoDriversAvailable)
                      else
                        bindP (offerLoop env now lockKey order (take 5 nearbyDrivers)) (\<lambda>returned.
                          case returned of
                            Some assignmentResult \<Rightarrow> ret assignmentResult
                          | None \<Rightarrow> bindP (redisDel lockKey) (\<lambda>_. throw NoDriverAcceptedOffer))) w1)
               (\<lambda>error. bindP (redisDel lockKey) (\<lambda>_. throw error))))) w)"

text \<open>
  \<^verbatim>\<open>markOrderAsFailed\<close> catches and logs every exception; the customer is notified
  after the document has been saved.
\<close>

definition markOrderAsFailed :: "nat \<Rightarrow> string \<Rightarrow> string \<Rightarrow> unit prog" where
  "markOrderAsFailed now oid reason =
     tryCatch
       (\<lambda>w. case findOneOrder oid w of
          None \<Rightarrow> ret () w
        | Some order \<Rightarrow>
            (let order1 = releaseLock (updateStatus now ''failed'' None order) in
             bindP (save order1) (\<lambda>_.
             emit (''customer:'' @ customer order1) ''order_failed'' (orderId order1))) w)
       (\<lambda>error. ret ())"

text \<open>\<^verbatim>\<open>Array.prototype.findIndex\<close>; \<open>None\<close> stands for -1.\<close>

fun findIndex :: "('a \<Rightarrow> bool) \<Rightarrow> 'a list \<Rightarrow> nat option" where
  "findIndex P [] = None"
| "findIndex P (x # xs) = (if P x then Some 0 else map_option Suc (findIndex P xs))"

record responseResult =
  responseSuccess :: bool
  responseMessage :: string
  responseOrderId :: "string option"

text \<open>
  The driver's answer is the string \<open>reply\<close>: \<^verbatim>\<open>'accept'\<close> accepts, every other
  string declines.  \<open>recordAnswer\<close> is the block of \<^verbatim>\<open>handleDriverResponse\<close> that
  updates the attempt: the first pending attempt of the driver, when there is one
  (\<^verbatim>\<open>attemptIndex !== -1\<close>), gets the answer and the time.
\<close>

definition recordAnswer :: "nat \<Rightarrow> string \<Rightarrow> string \<Rightarrow> order \<Rightarrow> order" where
  "recordAnswer now did reply order =
     (let attempts = assignmentAttempts order
      in case findIndex (\<lambda>a. attemptDriver a = did \<and> response a = Pending) attempts of
           Some attemptIndex \<Rightarrow>
             order\<lparr>assignmentAttempts := attempts[attemptIndex :=
               (attempts ! attemptIndex)
                 \<lparr>response := (if reply = ''accept'' then Accepted else Declined),
                  respondedAt := Some now\<rparr>]\<rparr>
         | None \<Rightarrow> order)"

definition handleDriverResponse :: "nat \<Rightarrow> string \<Rightarrow> string \<Rightarrow> string \<Rightarrow> responseResult prog" where
  "handleDriverResponse now oid did reply =
     (\<lambda>w. case findOneOrder oid w of
        None \<Rightarrow> throw NotFound w
      | Some order \<Rightarrow>
          (let driverLockKey = ''driver_lock:'' @ did;
               orderLockKey = ''order_lock:'' @ oid
           in
           bindP (redisGet now driverLockKey) (\<lambda>driverLock.
           bindP (redisGet now orderLockKey) (\<lambda>orderLock.
             if driverLock \<noteq> Some oid \<or> orderLock \<noteq> Some did then throw StaleOrExpiredOffer
             else
               let order1 = recordAnswer now did reply order in
               if reply = ''accept'' then
                 (let order2 = releaseLock (updateStatus now ''accepted'' (Some did) order1) in
                  bindP (save order2) (\<lambda>_.
                  bindP (setDriverUnavailable did) (\<lambda>_.
                  bindP (redisDel driverLockKey) (\<lambda>_.
                  bindP (redisDel orderLockKey) (\<lambda>_.
                  bindP (emit (''customer:'' @ customer order2) ''order_accepted'' (orderId order2)) (\<lambda>_.
                  bindP (emit (''driver:'' @ did) ''order_assignment_confirmed'' (orderId order2)) (\<lambda>_.
                  ret \<lparr>responseSuccess = True, responseMessage = ''Order accepted successfully'',
                       responseOrderId = Some oid\<rparr>)))))))
               else
                 (let order2 = releaseLock order1 in
                  bindP (save order2) (\<lambda>_.
                  bindP (redisDel driverLockKey) (\<lambda>_.
                  bindP (redisDel orderLockKey) (\<lambda>_.
                  let currentAttempts = length (filter (\<lambda>a. response a \<noteq> Pending) (assignmentAttempts order2));
                      maxRetries = 10
                  in
                  bindP (if currentAttempts < maxRetries
                         then setTimeout 2000 oid
                         else markOrderAsFailed now oid ''Maximum assignment attempts reached'') (\<lambda>_.
                  ret \<lparr>responseSuccess = True, responseMessage = ''Order declined, trying next driver'',
                       responseOrderId = None\<rparr>)))))))) w)"

text \<open>
  The callback that \<^verbatim>\<open>setTimeout\<close> runs after a decline: \<^verbatim>\<open>assignOrder\<close>, and
  \<^verbatim>\<open>markOrderAsFailed\<close> when it throws.
\<close>

definition reassign :: "env \<Rightarrow> nat \<Rightarrow> string \<Rightarrow> unit prog" where
  "reassign env now oid =
     tryCatch (bindP (assignOrder env now oid) (\<lambda>_. ret ()))
       (\<lambda>error. markOrderAsFailed now oid ''No drivers available'')"

text \<open>
  \<^verbatim>\<open>cleanupExpiredLocks\<close>: \<open>sweepOrder\<close> is the body of its loop.  The lock is
  released before the key of the driver's lock is built from \<^verbatim>\<open>order.lockedBy\<close>,
  which a template literal prints as \<^verbatim>\<open>null\<close> when it is null.
\<close>

definition expiredLock :: "nat \<Rightarrow> order \<Rightarrow> bool" where
  "expiredLock now doc \<longleftrightarrow>
     isLocked doc \<and> (case lockExpiration doc of None \<Rightarrow> False | Some expiry \<Rightarrow> expiry < now)"

definition markLastTimeout :: "nat \<Rightarrow> attempt list \<Rightarrow> attempt list" where
  "markLastTimeout now attempts =
     (if attempts \<noteq> [] \<and> response (last attempts) = Pending
      then butlast attempts @ [(last attempts)\<lparr>response := Timeout, respondedAt := Some now\<rparr>]
      else attempts)"

text \<open>The order document that the sweep saves for an order.\<close>

definition swept :: "nat \<Rightarrow> order \<Rightarrow> order" where
  "swept now order =
     (releaseLock order)\<lparr>assignmentAttempts := markLastTimeout now (assignmentAttempts order)\<rparr>"

definition sweepOrder :: "nat \<Rightarrow> order \<Rightarrow> unit prog" where
  "sweepOrder now order =
     (let order1 = releaseLock order;
          order2 = order1\<lparr>assignmentAttempts := markLastTimeout now (assignmentAttempts order1)\<rparr>
      in
      bindP (save order2) (\<lambda>_.
      bindP (redisDel (''driver_lock:'' @ (case lockedBy order2 of None \<Rightarrow> ''null'' | Some d \<Rightarrow> d))) (\<lambda>_.
      redisDel (''order_lock:'' @ orderId order2))))"

fun sweepLoop :: "nat \<Rightarrow> order list \<Rightarrow> unit prog" where
  "sweepLoop now [] = ret ()"
| "sweepLoop now (order # rest) = bindP (sweepOrder now order) (\<lambda>_. sweepLoop now rest)"

definition cleanupExpiredLocks :: "nat \<Rightarrow> unit prog" where
  "cleanupExpiredLocks now =
     tryCatch (\<lambda>w. sweepLoop now (filter (expiredLock now) (orders w)) w)
       (\<lambda>error. ret ())"

section \<open>Example worlds\<close>

text \<open>
  A test double for the two distance functions: one degree of latitude is 100 km, and
  longitude is ignored.  The order \<^verbatim>\<open>ORD-1\<close> is picked up at the origin; driver
  \<^verbatim>\<open>D1\<close> is 1 km and driver \<^verbatim>\<open>D2\<close> 3 km away.
\<close>

definition flatDistance :: "point \<Rightarrow> point \<Rightarrow> real" where
  "flatDistance p q = 100000 * \<bar>latitude q - latitude p\<bar>"

definition env0 :: env where
  "env0 = \<lparr>nearDistance = flatDistance,
           getDistance = (\<lambda>p q. Inr (flatDistance p q)),
           ORDER_LOCK_TIMEOUT = None\<rparr>"

definition order0 :: order where
  "order0 = \<lparr>orderId = ''ORD-1'', customer = ''C1'', driver = None,
             pickupLocation = \<lparr>latitude = 0, longitude = 0\<rparr>,
             status = ''pending'', paymentStatus = ''pending'',
             acceptedAt = None, pickupStartedAt = None, pickedUpAt = None,
             deliveredAt = None, cancelledAt = None,
             assignmentAttempts = [], isLocked = False, lockedBy = None,
             lockExpiration = None\<rparr>"

definition driverAt :: "string \<Rightarrow> real \<Rightarrow> user" where
  "driverAt did lat = \<lparr>userId = did, userType = ''driver'', isActive = True, isAvailable = True,
                       currentLocation = \<lparr>latitude = lat, longitude = 0\<rparr>\<rparr>"

definition drivers0 :: "user list" where
  "drivers0 = [driverAt ''D2'' (3 / 100), driverAt ''D1'' (1 / 100)]"

text \<open>The order has been created and nothing else has happened.\<close>

definition world0 :: world where
  "world0 = \<lparr>orders = [order0], users = drivers0, redisStore = Map.empty,
             redisFaults = [], emitted = [], timers = []\<rparr>"

definition pendingAttempt :: "string \<Rightarrow> attempt" where
  "pendingAttempt did = \<lparr>attemptDriver = did, attemptedAt = 1000, response = Pending,
                          respondedAt = None\<rparr>"

definition declinedAttempt :: "string \<Rightarrow> attempt" where
  "declinedAttempt did = \<lparr>attemptDriver = did, attemptedAt = 500, response = Declined,
                           respondedAt = Some 600\<rparr>"

text \<open>Nine other drivers have declined the order.\<close>

definition nineDeclined :: "attempt list" where
  "nineDeclined = map declinedAttempt
     [''D2'', ''D3'', ''D4'', ''D5'', ''D6'', ''D7'', ''D8'', ''D9'', ''D10'']"

definition lockKeys :: "string \<rightharpoonup> string \<times> nat" where
  "lockKeys = [''driver_lock:D1'' \<mapsto> (''ORD-1'', 301000), ''order_lock:ORD-1'' \<mapsto> (''D1'', 301000)]"

text \<open>
  The order was offered to \<^verbatim>\<open>D1\<close> at time 1000 for 300 seconds: both lock keys are
  set, the order is locked and has a pending attempt; \<open>history\<close> holds the earlier
  attempts.
\<close>

definition offeredWorld :: "attempt list \<Rightarrow> world" where
  "offeredWorld history =
     \<lparr>orders = [order0\<lparr>assignmentAttempts := history @ [pendingAttempt ''D1''],
                        isLocked := True, lockedBy := Some ''D1'',
                        lockExpiration := Some 301000\<rparr>],
      users = drivers0, redisStore = lockKeys,
      redisFaults = [], emitted = [], timers = []\<rparr>"

text \<open>Both lock keys are set for \<^verbatim>\<open>D1\<close>, but the order has no attempt record.\<close>

definition lockedWorld :: world where
  "lockedWorld = world0\<lparr>redisStore := lockKeys\<rparr>"

text \<open>The nearest driver \<^verbatim>\<open>D1\<close> is under offer for another order.\<close>

definition busyWorld :: world where
  "busyWorld = world0\<lparr>redisStore := [''driver_lock:D1'' \<mapsto> (''ORD-9'', 301000)]\<rparr>"

text \<open>
  Six drivers within 5 km of the pickup point, \<^verbatim>\<open>D1\<close> the nearest and
  \<^verbatim>\<open>D6\<close> the farthest; the drivers named in \<open>busy\<close> are under offer for another
  order.
\<close>

definition drivers6 :: "user list" where
  "drivers6 = [driverAt ''D6'' (45 / 1000), driverAt ''D3'' (2 / 100), driverAt ''D1'' (5 / 1000),
               driverAt ''D5'' (4 / 100), driverAt ''D2'' (1 / 100), driverAt ''D4'' (3 / 100)]"

definition busyKeys :: "string list \<Rightarrow> string \<rightharpoonup> string \<times> nat" where
  "busyKeys busy = map_of (map (\<lambda>did. (''driver_lock:'' @ did, (''ORD-9'', 301000))) busy)"

definition crowdedWorld :: "string list \<Rightarrow> world" where
  "crowdedWorld busy = world0\<lparr>users := drivers6, redisStore := busyKeys busy\<rparr>"

text \<open>The key \<^verbatim>\<open>order_assignment:ORD-1\<close> is set.\<close>

definition assigningWorld :: world where
  "assigningWorld = world0\<lparr>redisStore := [''order_assignment:ORD-1'' \<mapsto> (''locked'', 301000)]\<rparr>"

section \<open>Properties of the geographic utilities\<close>

subsection \<open>Estimated duration\<close>

text \<open>
  The speed table: 25 for bike, 30 for car, 20 for auto, and the car's 30 for every
  other name that plain objects do not inherit.  For those names the duration is
  \<open>round (d / speed * 60 * 1.2)\<close>.
\<close>

lemma speedOf_known:
  "speedOf ''bike'' = Num 25" "speedOf ''car'' = Num 30" "speedOf ''auto'' = Num 20"
  by (simp_all add: speedOf_def getProperty_def averageSpeeds_def)

lemma speedOf_unknown:
  "c \<notin> {''bike'', ''car'', ''auto''} \<Longrightarrow> c \<notin> set objectPrototypeKeys \<Longrightarrow> speedOf c = Num 30"
  by (simp add: speedOf_def getProperty_def averageSpeeds_def)

lemma calculateEstimatedDuration_formula:
  "c \<notin> set objectPrototypeKeys \<Longrightarrow>
   calculateEstimatedDuration d (Some c) =
     Num (of_int (round ((d / (if c = ''bike'' then 25 else if c = ''auto'' then 20 else 30)) * 60 * 1.2)))"
  by (simp add: calculateEstimatedDuration_def speedOf_def getProperty_def averageSpeeds_def)

text \<open>
  C8.  The claim: for every distance \<open>d \<ge> 0\<close> and vehicle class \<open>c\<close> the estimated
  duration is \<open>round ((d / speed c) * 60 * 1.2)\<close>, with the car's 30 km/h for any
  unknown class.  The code at distance 10 and the class name \<^verbatim>\<open>constructor\<close>, which
  is none of bike, car and auto: the table lookup finds the inherited
  \<^verbatim>\<open>Object.prototype.constructor\<close>, which is truthy, so the default is not taken and
  the result is \<^verbatim>\<open>NaN\<close>, where the claim's formula gives 24 minutes.
\<close>

theorem calculateEstimatedDuration_inherited_key:
  "calculateEstimatedDuration 10 (Some ''constructor'') = NaN
   \<and> ''constructor'' \<notin> {''bike'', ''car'', ''auto''}
   \<and> Num (of_int (round ((10 / 30) * 60 * 1.2))) = Num 24"
  by (simp add: calculateEstimatedDuration_def speedOf_def getProperty_def averageSpeeds_def objectPrototypeKeys_def)

subsection \<open>Distance\<close>

lemma haversine_sym: "haversine a b = haversine b a"
proof -
  have s: "sin (toRadians (x - y) / 2) * sin (toRadians (x - y) / 2)
         = sin (toRadians (y - x) / 2) * sin (toRadians (y - x) / 2)" for x y :: real
  proof -
    have "toRadians (x - y) / 2 = - (toRadians (y - x) / 2)"
      by (simp add: toRadians_def field_simps)
    then show ?thesis by simp
  qed
  show ?thesis
    unfolding haversine_def Let_def
    using s [of "latitude b" "latitude a"] s [of "longitude b" "longitude a"]
    by (simp add: mult.commute mult.left_commute mult.assoc)
qed

lemma haversine_self: "haversine a a = 0"
  by (simp add: haversine_def toRadians_def)

text \<open>
  C9.  The distance is symmetric and zero on the diagonal: for valid coordinates \<open>a\<close>
  and \<open>b\<close>, the distance from \<open>a\<close> to \<open>b\<close> equals the distance from \<open>b\<close> to
  \<open>a\<close>, and the distance from \<open>a\<close> to \<open>a\<close> is 0.
\<close>

theorem calculateDistance_symmetric:
  assumes "validateCoordinates (latitude a) (longitude a)"
    and "validateCoordinates (latitude b) (longitude b)"
  shows "calculateDistance geolib_getDistance a b = calculateDistance geolib_getDistance b a
       \<and> calculateDistance geolib_getDistance a a = Num 0"
  by (simp add: calculateDistance_def geolib_getDistance_def haversine_sym [of a b] haversine_self toFixed2_def)

theorem calculateDistance_symmetric_witness:
  "validateCoordinates (latitude \<lparr>latitude = 48, longitude = 2\<rparr>) (longitude \<lparr>latitude = 48, longitude = 2\<rparr>)
   \<and> validateCoordinates (latitude \<lparr>latitude = 50, longitude = 3\<rparr>) (longitude \<lparr>latitude = 50, longitude = 3\<rparr>)
   \<and> calculateDistance geolib_getDistance \<lparr>latitude = 48, longitude = 2\<rparr> \<lparr>latitude = 50, longitude = 3\<rparr>
     = calculateDistance geolib_getDistance \<lparr>latitude = 50, longitude = 3\<rparr> \<lparr>latitude = 48, longitude = 2\<rparr>
   \<and> calculateDistance geolib_getDistance \<lparr>latitude = 48, longitude = 2\<rparr> \<lparr>latitude = 48, longitude = 2\<rparr> = Num 0"
proof -
  have v1: "validateCoordinates (latitude \<lparr>latitude = 48, longitude = 2\<rparr>) (longitude \<lparr>latitude = 48, longitude = 2\<rparr>)"
    by (simp add: validateCoordinates_def)
  have v2: "validateCoordinates (latitude \<lparr>latitude = 50, longitude = 3\<rparr>) (longitude \<lparr>latitude = 50, longitude = 3\<rparr>)"
    by (simp add: validateCoordinates_def)
  show ?thesis using v1 v2 calculateDistance_symmetric [OF v1 v2] by blast
qed

lemma toFixed2_near: "\<bar>toFixed2 x - x\<bar> \<le> 1 / 200"
proof -
  have a: "\<bar>of_int \<lfloor>y * 100 + 1 / 2\<rfloor> / 100 - y\<bar> \<le> 1 / 200" for y :: real
    by linarith
  show ?thesis
  proof (cases "x < 0")
    case True
    have "\<bar>- (of_int \<lfloor>(- x) * 100 + 1 / 2\<rfloor> / 100) - x\<bar>
        = \<bar>of_int \<lfloor>(- x) * 100 + 1 / 2\<rfloor> / 100 - (- x)\<bar>" by linarith
    with True show ?thesis using a [of "- x"] by (simp add: toFixed2_def)
  next
    case False
    then show ?thesis using a [of x] by (cases "x = 0") (simp_all add: toFixed2_def)
  qed
qed

lemma toFixed2_hundredths: "\<exists>k::int. toFixed2 x = of_int k / 100"
proof (cases "x < 0")
  case True
  then have "toFixed2 x = of_int (- \<lfloor>\<bar>x\<bar> * 100 + 1 / 2\<rfloor>) / 100" by (simp add: toFixed2_def)
  then show ?thesis by blast
next
  case False
  show ?thesis
  proof (cases "x = 0")
    case True
    then have "toFixed2 x = of_int 0 / 100" by (simp add: toFixed2_def)
    then show ?thesis by blast
  next
    case False
    with \<open>\<not> x < 0\<close> have "toFixed2 x = of_int \<lfloor>\<bar>x\<bar> * 100 + 1 / 2\<rfloor> / 100" by (simp add: toFixed2_def)
    then show ?thesis by blast
  qed
qed

text \<open>
  When \<^verbatim>\<open>getDistance\<close> returns a number or raises, as it does for the service,
  \<^verbatim>\<open>calculateDistance\<close> returns a number.
\<close>

lemma calculateDistance_metres:
  "calculateDistance (metres g) p q =
     Num (case g p q of Inr distance \<Rightarrow> toFixed2 (distance / 1000) | Inl error \<Rightarrow> 0)"
  by (simp add: calculateDistance_def metres_def split: sum.splits)

text \<open>
  C10, as the claim states it: \<^verbatim>\<open>calculateDistance\<close> never throws, returns 0 when
  the great-circle computation raises, and otherwise returns the distance in kilometres
  rounded to 2 decimal places.  The computation can also return \<^verbatim>\<open>NaN\<close> without
  raising, which \<^verbatim>\<open>geolib.getDistance\<close> does for arguments that carry no
  coordinates, such as two bare numbers.  Then nothing is caught, and
  \<^verbatim>\<open>calculateDistance\<close> returns \<^verbatim>\<open>NaN\<close>: neither 0 nor a distance rounded to 2
  decimal places.
\<close>

theorem calculateDistance_NaN_counterexample:
  "calculateDistance (\<lambda>a b. Inr NaN :: unit + jsnum) (12.97 :: real) 77.59 = NaN
   \<and> calculateDistance (\<lambda>a b. Inr NaN :: unit + jsnum) (12.97 :: real) 77.59 \<noteq> Num 0"
  by (simp add: calculateDistance_def)

text \<open>
  C10, amended.  \<^verbatim>\<open>calculateDistance\<close> never throws: in each of the three cases of
  the great-circle computation it returns a value.  When the computation raises, the
  value is 0, the same as for a genuine distance of 0 metres.  When the computation
  returns a number of metres, the value is that distance in kilometres rounded to 2
  decimal places: a whole number of hundredths within half a hundredth of the exact
  value.  When the computation returns \<^verbatim>\<open>NaN\<close> without raising, the value is
  \<^verbatim>\<open>NaN\<close>.
\<close>

theorem calculateDistance_total:
  "(\<forall>e. great p q = Inl e \<longrightarrow> calculateDistance great p q = Num 0)
   \<and> (\<forall>m. great p q = Inr (Num m) \<longrightarrow>
         (\<exists>km. calculateDistance great p q = Num km
               \<and> \<bar>km - m / 1000\<bar> \<le> 1 / 200
               \<and> (\<exists>k::int. km = of_int k / 100)))
   \<and> (great p q = Inr NaN \<longrightarrow> calculateDistance great p q = NaN)
   \<and> calculateDistance (\<lambda>a b. Inl e0) p q = calculateDistance (\<lambda>a b. Inr (Num 0)) p q"
  using toFixed2_near [of "m / 1000" for m] toFixed2_hundredths [of "m / 1000" for m]
  by (auto simp add: calculateDistance_def) (simp add: toFixed2_def)

theorem calculateDistance_total_witness:
  "calculateDistance (\<lambda>a b. Inl () :: unit + jsnum) (1::nat) 2 = Num 0
   \<and> (\<exists>km. calculateDistance (\<lambda>a b. Inr (Num 1234) :: unit + jsnum) (1::nat) 2 = Num km
           \<and> \<bar>km - 1234 / 1000\<bar> \<le> 1 / 200)
   \<and> calculateDistance (\<lambda>a b. Inr NaN :: unit + jsnum) (1::nat) 2 = NaN"
  using calculateDistance_total [of "\<lambda>a b. Inl () :: unit + jsnum" "1::nat" 2 "()"]
    calculateDistance_total [of "\<lambda>a b. Inr (Num 1234) :: unit + jsnum" "1::nat" 2 "()"]
    calculateDistance_total [of "\<lambda>a b. Inr NaN :: unit + jsnum" "1::nat" 2 "()"]
  by blast

section \<open>Running the service\<close>

text \<open>
  Lemmas about the model that the properties of the service rest on: how each command
  and each method runs in a given world.
\<close>

subsection \<open>Commands on a reachable store\<close>

lemma ret_apply: "ret x w = (Inr x, w)"
  by (simp add: ret_def)

lemma throw_apply: "throw e w = (Inl e, w)"
  by (simp add: throw_def)

lemma redisGet_ok:
  "redisFaults w = [] \<Longrightarrow> redisGet now key w = (Inr (liveValue now (redisStore w key)), w)"
  by (simp add: redisGet_def redisOp_def)

lemma redisSetEx_ok:
  "redisFaults w = [] \<Longrightarrow>
   redisSetEx now key seconds v w =
     (Inr (), w\<lparr>redisStore := (redisStore w)(key \<mapsto> (v, now + seconds * 1000))\<rparr>)"
  by (simp add: redisSetEx_def redisOp_def)

lemma redisDel_ok:
  "redisFaults w = [] \<Longrightarrow>
   redisDel key w = (Inr (), w\<lparr>redisStore := (redisStore w)(key := None)\<rparr>)"
  by (simp add: redisDel_def redisOp_def)

lemma bindP_redisGet:
  "redisFaults w = [] \<Longrightarrow> bindP (redisGet now key) f w = f (liveValue now (redisStore w key)) w"
  by (simp add: bindP_def redisGet_ok)

lemma bindP_redisSetEx:
  "redisFaults w = [] \<Longrightarrow>
   bindP (redisSetEx now key seconds v) f w =
     f () (w\<lparr>redisStore := (redisStore w)(key \<mapsto> (v, now + seconds * 1000))\<rparr>)"
  by (simp add: bindP_def redisSetEx_ok)

lemma bindP_redisDel:
  "redisFaults w = [] \<Longrightarrow>
   bindP (redisDel key) f w = f () (w\<lparr>redisStore := (redisStore w)(key := None)\<rparr>)"
  by (simp add: bindP_def redisDel_ok)

lemma bindP_save:
  "status doc \<in> set statusEnum \<Longrightarrow>
   bindP (save doc) f w = f () (w\<lparr>orders := map (storeDoc doc) (orders w)\<rparr>)"
  by (simp add: bindP_def save_def)

lemma bindP_save_invalid:
  "status doc \<notin> set statusEnum \<Longrightarrow> bindP (save doc) f w = (Inl ValidationError, w)"
  by (simp add: bindP_def save_def)

lemma bindP_setDriverUnavailable:
  "bindP (setDriverUnavailable did) f w = f () (w\<lparr>users := map (markUnavailable did) (users w)\<rparr>)"
  by (simp add: bindP_def setDriverUnavailable_def)

lemma bindP_emit:
  "bindP (emit room name oid) f w = f () (w\<lparr>emitted := emitted w @ [Emit room name oid]\<rparr>)"
  by (simp add: bindP_def emit_def)

lemma bindP_setTimeout:
  "bindP (setTimeout ms oid) f w = f () (w\<lparr>timers := timers w @ [(ms, oid)]\<rparr>)"
  by (simp add: bindP_def setTimeout_def)

lemma bindP_ret: "bindP (ret x) f w = f x w"
  by (simp add: bindP_def ret_def)

lemma bindP_throw: "bindP (throw e) f w = (Inl e, w)"
  by (simp add: bindP_def throw_def)

lemmas run_simps = bindP_redisGet bindP_redisSetEx bindP_redisDel bindP_save bindP_setDriverUnavailable
  bindP_emit bindP_setTimeout bindP_ret bindP_throw ret_apply throw_apply

subsection \<open>Stored documents and attempt records\<close>

lemma find_orderId: "find (\<lambda>d. orderId d = oid) os = Some doc \<Longrightarrow> orderId doc = oid"
  by (induction os) (simp_all split: if_splits)

lemma findOneOrder_orderId: "findOneOrder oid w = Some doc \<Longrightarrow> orderId doc = oid"
  unfolding findOneOrder_def by (rule find_orderId)

lemma find_stored:
  "find (\<lambda>d. orderId d = oid) os = Some old \<Longrightarrow> orderId doc = oid \<Longrightarrow>
   find (\<lambda>d. orderId d = oid) (map (storeDoc doc) os) = Some doc"
  by (induction os) (auto simp add: storeDoc_def split: if_splits)

lemma find_stored_other:
  "oid' \<noteq> orderId doc \<Longrightarrow>
   find (\<lambda>d. orderId d = oid') (map (storeDoc doc) os) = find (\<lambda>d. orderId d = oid') os"
  by (induction os) (auto simp add: storeDoc_def)

lemma findIndex_first:
  "findIndex P xs = Some i \<Longrightarrow> i < length xs \<and> P (xs ! i) \<and> (\<forall>j<i. \<not> P (xs ! j))"
proof (induction xs arbitrary: i)
  case Nil
  then show ?case by simp
next
  case (Cons x xs)
  show ?case
  proof (cases "P x")
    case True
    with Cons.prems show ?thesis by simp
  next
    case False
    with Cons.prems obtain k where k: "findIndex P xs = Some k" "i = Suc k" by auto
    from Cons.IH [OF k(1)] False k(2) show ?thesis
      by (auto simp add: nth_Cons split: nat.splits)
  qed
qed

lemma findIndex_exists: "\<exists>x\<in>set xs. P x \<Longrightarrow> \<exists>i. findIndex P xs = Some i"
  by (induction xs) auto

lemma findIndex_None: "findIndex P xs = None \<longleftrightarrow> (\<forall>x\<in>set xs. \<not> P x)"
  by (induction xs) auto

lemma statusEnum_accepted: "''accepted'' \<in> set statusEnum"
  by (simp add: statusEnum_def)

lemma markUnavailable_self:
  "userId (markUnavailable did u) = did \<Longrightarrow> \<not> isAvailable (markUnavailable did u)"
  by (cases "userId u = did") (simp_all add: markUnavailable_def)

lemma markUnavailable_set:
  "u \<in> set (map (markUnavailable did) us) \<Longrightarrow> userId u = did \<Longrightarrow> \<not> isAvailable u"
  using markUnavailable_self by (metis (no_types, lifting) imageE list.set_map)

subsection \<open>Marking an order as failed\<close>

lemma statusEnum_failed: "''failed'' \<notin> set statusEnum"
  by (simp add: statusEnum_def)

lemma status_failed: "status (releaseLock (updateStatus now ''failed'' None order)) = ''failed''"
  by (simp add: releaseLock_def updateStatus_def)

lemma markOrderAsFailed_noop: "markOrderAsFailed now oid reason w = (Inr (), w)"
proof (cases "findOneOrder oid w")
  case None
  then show ?thesis by (simp add: markOrderAsFailed_def tryCatch_def ret_def)
next
  case (Some order)
  have "status (releaseLock (updateStatus now ''failed'' None order)) \<notin> set statusEnum"
    using statusEnum_failed by (simp only: status_failed) simp
  then show ?thesis
    using Some by (simp add: markOrderAsFailed_def tryCatch_def Let_def bindP_save_invalid ret_def)
qed

lemma bindP_markOrderAsFailed: "bindP (markOrderAsFailed now oid reason) f w = f () w"
  by (simp add: bindP_def markOrderAsFailed_noop)

subsection \<open>The two branches of an answer\<close>

lemma recordAnswer_fields:
  "orderId (recordAnswer now did reply order) = orderId order"
  "status (recordAnswer now did reply order) = status order"
  "customer (recordAnswer now did reply order) = customer order"
  by (simp_all add: recordAnswer_def Let_def split: option.splits)

lemma accept_run:
  assumes reachable: "redisFaults w = []"
    and found: "findOneOrder oid w = Some order"
    and driverLock: "liveValue now (redisStore w (''driver_lock:'' @ did)) = Some oid"
    and orderLock: "liveValue now (redisStore w (''order_lock:'' @ oid)) = Some did"
  shows "handleDriverResponse now oid did ''accept'' w =
      (Inr \<lparr>responseSuccess = True, responseMessage = ''Order accepted successfully'',
            responseOrderId = Some oid\<rparr>,
       w\<lparr>orders := map (storeDoc (releaseLock (updateStatus now ''accepted'' (Some did)
                                      (recordAnswer now did ''accept'' order)))) (orders w),
         users := map (markUnavailable did) (users w),
         redisStore := (redisStore w)(''driver_lock:'' @ did := None, ''order_lock:'' @ oid := None),
         emitted := emitted w @ [Emit (''customer:'' @ customer order) ''order_accepted'' oid,
                                 Emit (''driver:'' @ did) ''order_assignment_confirmed'' oid]\<rparr>)"
proof -
  define order2 where "order2 = releaseLock (updateStatus now ''accepted'' (Some did)
                                      (recordAnswer now did ''accept'' order))"
  have oid: "orderId order = oid" using found by (rule findOneOrder_orderId)
  have f: "status order2 = ''accepted''" "orderId order2 = oid" "customer order2 = customer order"
    by (simp_all add: order2_def releaseLock_def updateStatus_def recordAnswer_fields oid)
  have valid: "status order2 \<in> set statusEnum" using f(1) statusEnum_accepted by simp
  show ?thesis
    unfolding handleDriverResponse_def
    using reachable found driverLock orderLock valid f(2,3)
    by (simp add: Let_def order2_def [symmetric] run_simps)
qed

lemma decline_run:
  assumes reachable: "redisFaults w = []"
    and found: "findOneOrder oid w = Some order"
    and driverLock: "liveValue now (redisStore w (''driver_lock:'' @ did)) = Some oid"
    and orderLock: "liveValue now (redisStore w (''order_lock:'' @ oid)) = Some did"
    and decline: "reply \<noteq> ''accept''"
    and valid: "status order \<in> set statusEnum"
  shows "handleDriverResponse now oid did reply w =
      (Inr \<lparr>responseSuccess = True, responseMessage = ''Order declined, trying next driver'',
            responseOrderId = None\<rparr>,
       w\<lparr>orders := map (storeDoc (releaseLock (recordAnswer now did reply order))) (orders w),
         redisStore := (redisStore w)(''driver_lock:'' @ did := None, ''order_lock:'' @ oid := None),
         timers := (if length (filter (\<lambda>a. response a \<noteq> Pending)
                                 (assignmentAttempts (recordAnswer now did reply order))) < 10
                    then timers w @ [(2000, oid)] else timers w)\<rparr>)"
proof -
  define order2 where "order2 = releaseLock (recordAnswer now did reply order)"
  have f: "status order2 = status order"
    "assignmentAttempts order2 = assignmentAttempts (recordAnswer now did reply order)"
    by (simp_all add: order2_def releaseLock_def recordAnswer_fields)
  have valid2: "status order2 \<in> set statusEnum" using f(1) valid by simp
  show ?thesis
    unfolding handleDriverResponse_def
    using reachable found driverLock orderLock valid2 decline f(2)
    by (simp add: Let_def order2_def [symmetric] run_simps bindP_markOrderAsFailed)
qed

lemma recordAnswer_found:
  assumes "findIndex (\<lambda>a. attemptDriver a = did \<and> response a = Pending) (assignmentAttempts order) = Some i"
  shows "assignmentAttempts (recordAnswer now did reply order) =
           (assignmentAttempts order)[i := (assignmentAttempts order ! i)
              \<lparr>response := (if reply = ''accept'' then Accepted else Declined), respondedAt := Some now\<rparr>]"
  using assms by (simp add: recordAnswer_def Let_def)

lemma recordAnswer_none:
  assumes "findIndex (\<lambda>a. attemptDriver a = did \<and> response a = Pending) (assignmentAttempts order) = None"
  shows "recordAnswer now did reply order = order"
  using assms by (simp add: recordAnswer_def Let_def)

subsection \<open>The example worlds\<close>

lemma offeredWorld_found:
  "findOneOrder ''ORD-1'' (offeredWorld history) =
     Some (order0\<lparr>assignmentAttempts := history @ [pendingAttempt ''D1''],
                   isLocked := True, lockedBy := Some ''D1'', lockExpiration := Some 301000\<rparr>)"
  by (simp add: findOneOrder_def offeredWorld_def order0_def)

lemma lockKeys_live:
  "now < 301000 \<Longrightarrow> liveValue now (lockKeys (''driver_lock:'' @ ''D1'')) = Some ''ORD-1''"
  "now < 301000 \<Longrightarrow> liveValue now (lockKeys (''order_lock:'' @ ''ORD-1'')) = Some ''D1''"
  by (simp_all add: lockKeys_def liveValue_def)

subsection \<open>Commands on a failing store\<close>

lemma redisOp_fault:
  "redisFaults w = True # fs \<Longrightarrow> redisOp f w = (Inl StoreUnavailable, w\<lparr>redisFaults := fs\<rparr>)"
  by (simp add: redisOp_def)

lemma redisOp_pass:
  "redisFaults w = False # fs \<Longrightarrow>
   redisOp f w = (Inr (fst (f (w\<lparr>redisFaults := fs\<rparr>))), snd (f (w\<lparr>redisFaults := fs\<rparr>)))"
  by (simp add: redisOp_def split: prod.splits)

lemma bindP_redisGet_fault:
  "redisFaults w = True # fs \<Longrightarrow>
   bindP (redisGet now key) f w = (Inl StoreUnavailable, w\<lparr>redisFaults := fs\<rparr>)"
  by (simp add: bindP_def redisGet_def redisOp_fault)

lemma bindP_redisGet_pass:
  "redisFaults w = False # fs \<Longrightarrow>
   bindP (redisGet now key) f w = f (liveValue now (redisStore w key)) (w\<lparr>redisFaults := fs\<rparr>)"
  by (simp add: bindP_def redisGet_def redisOp_pass)

lemma bindP_redisSetEx_fault:
  "redisFaults w = True # fs \<Longrightarrow>
   bindP (redisSetEx now key seconds v) f w = (Inl StoreUnavailable, w\<lparr>redisFaults := fs\<rparr>)"
  by (simp add: bindP_def redisSetEx_def redisOp_fault)

lemma bindP_redisSetEx_pass:
  "redisFaults w = False # fs \<Longrightarrow>
   bindP (redisSetEx now key seconds v) f w =
     f () (w\<lparr>redisFaults := fs, redisStore := (redisStore w)(key \<mapsto> (v, now + seconds * 1000))\<rparr>)"
  by (simp add: bindP_def redisSetEx_def redisOp_pass)

lemma tryCatch_ret: "\<exists>r w'. tryCatch m (\<lambda>e. ret x) w = (Inr r, w')"
proof (cases "m w")
  case (Pair res w1)
  then show ?thesis by (cases res) (simp_all add: tryCatch_def ret_def)
qed

lemma offerOrderToDriver_returns: "\<exists>r w'. offerOrderToDriver env now order drv w = (Inr r, w')"
  unfolding offerOrderToDriver_def Let_def by (rule tryCatch_ret)

lemma offerOrderToDriver_fault:
  "redisFaults w = True # fs \<Longrightarrow>
   offerOrderToDriver env now order drv w =
     (Inr (offerFailed ''Failed to offer order to driver'', order), w\<lparr>redisFaults := fs\<rparr>)"
  by (simp add: offerOrderToDriver_def Let_def tryCatch_def bindP_redisGet_fault ret_def)

lemma assignOrder_get_fault:
  assumes "findOneOrder oid w = Some order"
    and "status order = ''pending''"
    and "redisFaults w = True # fs"
  shows "assignOrder env now oid w = (Inl StoreUnavailable, w\<lparr>redisFaults := fs\<rparr>)"
  using assms by (simp add: assignOrder_def Let_def bindP_redisGet_fault)

lemma assignOrder_set_fault:
  assumes "findOneOrder oid w = Some order"
    and "status order = ''pending''"
    and "redisFaults w = False # True # fs"
    and "\<not> truthy (liveValue now (redisStore w (''order_assignment:'' @ oid)))"
  shows "assignOrder env now oid w = (Inl StoreUnavailable, w\<lparr>redisFaults := fs\<rparr>)"
  using assms by (simp add: assignOrder_def Let_def bindP_redisGet_pass bindP_redisSetEx_fault)

subsection \<open>One offer\<close>

lemma offer_busy:
  assumes "redisFaults w = []"
    and "truthy (liveValue now (redisStore w (''driver_lock:'' @ userId (cUser drv))))"
  shows "offerOrderToDriver env now order drv w =
           (Inr (offerFailed ''Driver is busy with another order'', order), w)"
  using assms by (simp add: offerOrderToDriver_def Let_def tryCatch_def run_simps)

lemma offer_order_locked:
  assumes "redisFaults w = []"
    and "\<not> truthy (liveValue now (redisStore w (''driver_lock:'' @ userId (cUser drv))))"
    and "truthy (liveValue now (redisStore w (''order_lock:'' @ orderId order)))"
    and "liveValue now (redisStore w (''order_lock:'' @ orderId order)) \<noteq> Some (userId (cUser drv))"
  shows "offerOrderToDriver env now order drv w =
           (Inr (offerFailed ''Order is locked by another driver'', order), w)"
  using assms by (simp add: offerOrderToDriver_def Let_def tryCatch_def run_simps)

lemma offer_placed:
  assumes "redisFaults w = []"
    and "\<not> truthy (liveValue now (redisStore w (''driver_lock:'' @ userId (cUser drv))))"
    and "\<not> truthy (liveValue now (redisStore w (''order_lock:'' @ orderId order)))
         \<or> liveValue now (redisStore w (''order_lock:'' @ orderId order)) = Some (userId (cUser drv))"
    and "status order \<in> set statusEnum"
  shows "offerOrderToDriver env now order drv w =
           (Inr (\<lparr>success = True, offeredDriver = Some (userId (cUser drv)),
                  lockTimeoutSeconds = Some (lockTimeoutOf env),
                  message = ''Order offered to driver''\<rparr>,
                 offered env now (userId (cUser drv)) order),
            w\<lparr>redisStore := (redisStore w)
                  (''driver_lock:'' @ userId (cUser drv) \<mapsto> (orderId order, now + lockTimeoutOf env * 1000),
                   ''order_lock:'' @ orderId order \<mapsto> (userId (cUser drv), now + lockTimeoutOf env * 1000)),
              orders := map (storeDoc (offered env now (userId (cUser drv)) order))
                          (map (storeDoc (lockForDriver now (userId (cUser drv)) (real (lockTimeoutOf env) / 60) order))
                               (orders w)),
              emitted := emitted w @ [Emit (''driver:'' @ userId (cUser drv)) ''new_order_offer'' (orderId order)]\<rparr>)"
proof -
  let ?did = "userId (cUser drv)"
  have v1: "status (lockForDriver now ?did tm order) \<in> set statusEnum" for tm
    using assms(4) by (simp add: lockForDriver_def)
  have v2: "status ((lockForDriver now ?did tm order)\<lparr>assignmentAttempts := X\<rparr>) \<in> set statusEnum" for tm X
    using assms(4) by (simp add: lockForDriver_def)
  have ids: "orderId (lockForDriver now ?did tm order) = orderId order" for tm
    by (simp add: lockForDriver_def)
  have att: "assignmentAttempts (lockForDriver now ?did tm order) = assignmentAttempts order" for tm
    by (simp add: lockForDriver_def)
  show ?thesis
  proof (cases "truthy (liveValue now (redisStore w (''order_lock:'' @ orderId order)))")
    case True
    with assms(3) have "liveValue now (redisStore w (''order_lock:'' @ orderId order)) = Some ?did"
      by blast
    then show ?thesis
      using assms(1,2)
      by (simp add: offerOrderToDriver_def Let_def tryCatch_def run_simps v1 v2 ids att offered_def)
  next
    case False
    then show ?thesis
      using assms(1,2)
      by (simp add: offerOrderToDriver_def Let_def tryCatch_def run_simps v1 v2 ids att offered_def)
  qed
qed

lemma bindP_assoc: "bindP (bindP m g) h = bindP m (\<lambda>x. bindP (g x) h)"
  by (rule ext) (simp add: bindP_def split: prod.splits sum.splits)

lemma bindP_offer_placed:
  assumes "redisFaults w = []"
    and "\<not> truthy (liveValue now (redisStore w (''driver_lock:'' @ userId (cUser drv))))"
    and "\<not> truthy (liveValue now (redisStore w (''order_lock:'' @ orderId order)))
         \<or> liveValue now (redisStore w (''order_lock:'' @ orderId order)) = Some (userId (cUser drv))"
    and "status order \<in> set statusEnum"
  shows "bindP (offerOrderToDriver env now order drv) f w =
           f (\<lparr>success = True, offeredDriver = Some (userId (cUser drv)),
                  lockTimeoutSeconds = Some (lockTimeoutOf env),
                  message = ''Order offered to driver''\<rparr>,
                 offered env now (userId (cUser drv)) order)
            (w\<lparr>redisStore := (redisStore w)
                  (''driver_lock:'' @ userId (cUser drv) \<mapsto> (orderId order, now + lockTimeoutOf env * 1000),
                   ''order_lock:'' @ orderId order \<mapsto> (userId (cUser drv), now + lockTimeoutOf env * 1000)),
              orders := map (storeDoc (offered env now (userId (cUser drv)) order))
                          (map (storeDoc (lockForDriver now (userId (cUser drv)) (real (lockTimeoutOf env) / 60) order))
                               (orders w)),
              emitted := emitted w @ [Emit (''driver:'' @ userId (cUser drv)) ''new_order_offer'' (orderId order)]\<rparr>)"
  by (simp add: bindP_def offer_placed [OF assms])

lemma bindP_offer_busy:
  assumes "redisFaults w = []"
    and "truthy (liveValue now (redisStore w (''driver_lock:'' @ userId (cUser drv))))"
  shows "bindP (offerOrderToDriver env now order drv) f w =
           f (offerFailed ''Driver is busy with another order'', order) w"
  by (simp add: bindP_def offer_busy [OF assms])

lemma bindP_offer_order_locked:
  assumes "redisFaults w = []"
    and "\<not> truthy (liveValue now (redisStore w (''driver_lock:'' @ userId (cUser drv))))"
    and "truthy (liveValue now (redisStore w (''order_lock:'' @ orderId order)))"
    and "liveValue now (redisStore w (''order_lock:'' @ orderId order)) \<noteq> Some (userId (cUser drv))"
  shows "bindP (offerOrderToDriver env now order drv) f w =
           f (offerFailed ''Order is locked by another driver'', order) w"
  by (simp add: bindP_def offer_order_locked [OF assms])

lemma bindP_offer_fault:
  assumes "redisFaults w = True # fs"
  shows "bindP (offerOrderToDriver env now order drv) f w =
           f (offerFailed ''Failed to offer order to driver'', order) (w\<lparr>redisFaults := fs\<rparr>)"
  by (simp add: bindP_def offerOrderToDriver_fault [OF assms])

lemma nearby0:
  "users w = drivers0 \<Longrightarrow>
   findNearbyDrivers env0 \<lparr>latitude = 0, longitude = 0\<rparr> None w =
     [\<lparr>cUser = driverAt ''D1'' (1 / 100), distanceToPickup = 1\<rparr>,
      \<lparr>cUser = driverAt ''D2'' (3 / 100), distanceToPickup = 3\<rparr>]"
  by (simp add: findNearbyDrivers_def env0_def drivers0_def driverAt_def flatDistance_def
      calculateDistance_def metres_def toFixed2_def)

lemma nearby6:
  "users w = drivers6 \<Longrightarrow>
   findNearbyDrivers env0 \<lparr>latitude = 0, longitude = 0\<rparr> None w =
     [\<lparr>cUser = driverAt ''D1'' (5 / 1000), distanceToPickup = 1 / 2\<rparr>,
      \<lparr>cUser = driverAt ''D2'' (1 / 100), distanceToPickup = 1\<rparr>,
      \<lparr>cUser = driverAt ''D3'' (2 / 100), distanceToPickup = 2\<rparr>,
      \<lparr>cUser = driverAt ''D4'' (3 / 100), distanceToPickup = 3\<rparr>,
      \<lparr>cUser = driverAt ''D5'' (4 / 100), distanceToPickup = 4\<rparr>,
      \<lparr>cUser = driverAt ''D6'' (45 / 1000), distanceToPickup = 9 / 2\<rparr>]"
  by (simp add: findNearbyDrivers_def env0_def drivers6_def driverAt_def flatDistance_def
      calculateDistance_def metres_def toFixed2_def)

subsection \<open>The loop of the sweep\<close>

lemma swept_fields:
  "orderId (swept now order) = orderId order"
  "status (swept now order) = status order"
  "\<not> isLocked (swept now order)"
  "lockedBy (swept now order) = None"
  "lockExpiration (swept now order) = None"
  "assignmentAttempts (swept now order) = markLastTimeout now (assignmentAttempts order)"
  by (simp_all add: swept_def releaseLock_def)

lemma sweepOrder_run:
  assumes "redisFaults w = []" and "status order \<in> set statusEnum"
  shows "sweepOrder now order w =
           (Inr (), w\<lparr>orders := map (storeDoc (swept now order)) (orders w),
                      redisStore := (redisStore w)(''driver_lock:null'' := None,
                                                   ''order_lock:'' @ orderId order := None)\<rparr>)"
proof -
  have s: "(releaseLock order)\<lparr>assignmentAttempts :=
             markLastTimeout now (assignmentAttempts (releaseLock order))\<rparr> = swept now order"
    by (simp add: swept_def releaseLock_def)
  have v: "status (swept now order) \<in> set statusEnum" using assms(2) by (simp add: swept_fields)
  show ?thesis
    unfolding sweepOrder_def Let_def s
    using assms(1) v by (simp add: run_simps redisDel_ok swept_fields)
qed

lemma sweepLoop_others:
  assumes "redisFaults w = []"
    and "\<forall>d\<in>set ds. status d \<in> set statusEnum"
    and "oid \<notin> orderId ` set ds"
  shows "\<exists>w'. sweepLoop now ds w = (Inr (), w')
           \<and> findOneOrder oid w' = findOneOrder oid w
           \<and> (redisStore w key = None \<longrightarrow> redisStore w' key = None)
           \<and> timers w' = timers w \<and> emitted w' = emitted w \<and> users w' = users w"
  using assms
proof (induction ds arbitrary: w)
  case Nil
  then show ?case by (simp add: ret_def)
next
  case (Cons d rest)
  define w1 where "w1 = w\<lparr>orders := map (storeDoc (swept now d)) (orders w),
                      redisStore := (redisStore w)(''driver_lock:null'' := None,
                                                   ''order_lock:'' @ orderId d := None)\<rparr>"
  have step: "sweepOrder now d w = (Inr (), w1)"
    unfolding w1_def using Cons.prems by (intro sweepOrder_run) simp_all
  have other: "oid \<noteq> orderId (swept now d)" using Cons.prems(3) by (simp add: swept_fields)
  have f1: "findOneOrder oid w1 = findOneOrder oid w"
    unfolding findOneOrder_def w1_def using find_stored_other [OF other] by simp
  have r1: "redisStore w key = None \<longrightarrow> redisStore w1 key = None" by (simp add: w1_def)
  have frame: "timers w1 = timers w" "emitted w1 = emitted w" "users w1 = users w" "redisFaults w1 = []"
    using Cons.prems(1) by (simp_all add: w1_def)
  from Cons.IH [of w1] frame(4) Cons.prems(2,3)
  obtain w' where w': "sweepLoop now rest w1 = (Inr (), w')"
    "findOneOrder oid w' = findOneOrder oid w1"
    "redisStore w1 key = None \<longrightarrow> redisStore w' key = None"
    "timers w' = timers w1" "emitted w' = emitted w1" "users w' = users w1"
    by auto
  have "sweepLoop now (d # rest) w = (Inr (), w')"
    using step w'(1) by (simp add: bindP_def)
  with w' f1 r1 frame show ?case by auto
qed

lemma sweepLoop_target:
  assumes "redisFaults w = []"
    and "\<forall>d\<in>set ds. status d \<in> set statusEnum"
    and "distinct (map orderId ds)"
    and "order \<in> set ds"
    and "findOneOrder (orderId order) w = Some order"
  shows "\<exists>w'. sweepLoop now ds w = (Inr (), w')
           \<and> findOneOrder (orderId order) w' = Some (swept now order)
           \<and> redisStore w' (''order_lock:'' @ orderId order) = None
           \<and> timers w' = timers w \<and> emitted w' = emitted w \<and> users w' = users w"
  using assms
proof (induction ds arbitrary: w)
  case Nil
  then show ?case by simp
next
  case (Cons d rest)
  define w1 where "w1 = w\<lparr>orders := map (storeDoc (swept now d)) (orders w),
                      redisStore := (redisStore w)(''driver_lock:null'' := None,
                                                   ''order_lock:'' @ orderId d := None)\<rparr>"
  have step: "sweepOrder now d w = (Inr (), w1)"
    unfolding w1_def using Cons.prems by (intro sweepOrder_run) simp_all
  have frame: "timers w1 = timers w" "emitted w1 = emitted w" "users w1 = users w" "redisFaults w1 = []"
    using Cons.prems(1) by (simp_all add: w1_def)
  have valid: "\<forall>x\<in>set rest. status x \<in> set statusEnum" using Cons.prems(2) by simp
  have dist: "distinct (map orderId rest)" "orderId d \<notin> orderId ` set rest"
    using Cons.prems(3) by simp_all
  show ?case
  proof (cases "d = order")
    case True
    have f1: "findOneOrder (orderId order) w1 = Some (swept now order)"
      unfolding findOneOrder_def w1_def True
      using Cons.prems(5) find_stored [of "orderId order" "orders w" order "swept now order"]
      by (simp add: findOneOrder_def swept_fields)
    have k1: "redisStore w1 (''order_lock:'' @ orderId order) = None"
      by (simp add: w1_def True)
    from dist(2) True have notin: "orderId order \<notin> orderId ` set rest" by simp
    from sweepLoop_others [OF frame(4) valid notin, of now "''order_lock:'' @ orderId order"]
    obtain w' where w': "sweepLoop now rest w1 = (Inr (), w')"
      "findOneOrder (orderId order) w' = findOneOrder (orderId order) w1"
      "redisStore w1 (''order_lock:'' @ orderId order) = None
         \<longrightarrow> redisStore w' (''order_lock:'' @ orderId order) = None"
      "timers w' = timers w1" "emitted w' = emitted w1" "users w' = users w1"
      by auto
    have "sweepLoop now (d # rest) w = (Inr (), w')"
      using step w'(1) by (simp add: bindP_def)
    with w' f1 k1 frame show ?thesis by auto
  next
    case False
    with Cons.prems(4) have mem: "order \<in> set rest" by simp
    then have "orderId order \<in> orderId ` set rest" by (rule imageI)
    with dist(2) have "orderId order \<noteq> orderId d" by metis
    then have other: "orderId order \<noteq> orderId (swept now d)"
      by (simp add: swept_fields)
    have f1: "findOneOrder (orderId order) w1 = Some order"
      unfolding findOneOrder_def w1_def
      using find_stored_other [OF other] Cons.prems(5) by (simp add: findOneOrder_def)
    from Cons.IH [OF frame(4) valid dist(1) mem f1]
    obtain w' where w': "sweepLoop now rest w1 = (Inr (), w')"
      "findOneOrder (orderId order) w' = Some (swept now order)"
      "redisStore w' (''order_lock:'' @ orderId order) = None"
      "timers w' = timers w1" "emitted w' = emitted w1" "users w' = users w1"
      by auto
    have "sweepLoop now (d # rest) w = (Inr (), w')"
      using step w'(1) by (simp add: bindP_def)
    with w' frame show ?thesis by auto
  qed
qed

lemma find_distinct:
  "distinct (map orderId os) \<Longrightarrow> x \<in> set os \<Longrightarrow> find (\<lambda>d. orderId d = orderId x) os = Some x"
proof (induction os)
  case Nil
  then show ?case by simp
next
  case (Cons a os)
  show ?case
  proof (cases "a = x")
    case True
    then show ?thesis by simp
  next
    case False
    with Cons.prems have "x \<in> set os" "orderId a \<noteq> orderId x" by auto
    with Cons show ?thesis by simp
  qed
qed

subsection \<open>The loop over the candidates\<close>

lemma offer_lockedOut:
  assumes "redisFaults w = []" and "lockedOut now w (orderId order) drv"
  shows "\<exists>reason. offerOrderToDriver env now order drv w = (Inr (offerFailed reason, order), w)"
proof (cases "truthy (liveValue now (redisStore w (''driver_lock:'' @ userId (cUser drv))))")
  case True
  from offer_busy [OF assms(1) True] show ?thesis by blast
next
  case False
  with assms(2) have "truthy (liveValue now (redisStore w (''order_lock:'' @ orderId order)))"
    "liveValue now (redisStore w (''order_lock:'' @ orderId order)) \<noteq> Some (userId (cUser drv))"
    unfolding lockedOut_def by blast+
  from offer_order_locked [OF assms(1) False this] show ?thesis by blast
qed

lemma offer_free:
  assumes "redisFaults w = []" and "\<not> lockedOut now w (orderId order) drv"
    and "status order \<in> set statusEnum"
  shows "offerOrderToDriver env now order drv w =
           (Inr (offerSuccess env drv, offered env now (userId (cUser drv)) order),
            placed env now order drv w)"
proof -
  from assms(2) have a: "\<not> truthy (liveValue now (redisStore w (''driver_lock:'' @ userId (cUser drv))))"
    and b: "\<not> truthy (liveValue now (redisStore w (''order_lock:'' @ orderId order)))
         \<or> liveValue now (redisStore w (''order_lock:'' @ orderId order)) = Some (userId (cUser drv))"
    unfolding lockedOut_def by blast+
  show ?thesis
    unfolding offerSuccess_def placed_def by (rule offer_placed [OF assms(1) a b assms(3)])
qed

lemma offerLoop_reachable:
  assumes "redisFaults w = []" and "status order \<in> set statusEnum"
  shows "offerLoop env now lockKey order cs w =
           (case find (\<lambda>c. \<not> lockedOut now w (orderId order) c) cs of
              None \<Rightarrow> (Inr None, w)
            | Some drv \<Rightarrow>
                (Inr (Some (offerSuccess env drv)),
                 (placed env now order drv w)
                   \<lparr>redisStore := (redisStore (placed env now order drv w))(lockKey := None)\<rparr>))"
proof (induction cs)
  case Nil
  show ?case by (simp add: ret_def)
next
  case (Cons c cs)
  show ?case
  proof (cases "lockedOut now w (orderId order) c")
    case True
    from offer_lockedOut [OF assms(1) True, of env] obtain reason where
      "offerOrderToDriver env now order c w = (Inr (offerFailed reason, order), w)" by blast
    then have "offerLoop env now lockKey order (c # cs) w = offerLoop env now lockKey order cs w"
      by (simp add: bindP_def offerFailed_def)
    with Cons True show ?thesis by simp
  next
    case False
    have rf: "redisFaults (placed env now order c w) = []" using assms(1) by (simp add: placed_def)
    from offer_free [OF assms(1) False assms(2), of env]
    have "offerLoop env now lockKey order (c # cs) w =
            bindP (redisDel lockKey) (\<lambda>_. ret (Some (offerSuccess env c))) (placed env now order c w)"
      by (simp add: bindP_def offerSuccess_def)
    also have "\<dots> = (Inr (Some (offerSuccess env c)),
                 (placed env now order c w)
                   \<lparr>redisStore := (redisStore (placed env now order c w))(lockKey := None)\<rparr>)"
      using rf by (simp add: bindP_redisDel ret_def)
    finally show ?thesis using False by simp
  qed
qed

lemma findNearbyDrivers_users:
  "users w1 = users w \<Longrightarrow> findNearbyDrivers env p r w1 = findNearbyDrivers env p r w"
  by (simp add: findNearbyDrivers_def)

lemma lockedOut_assignment_key:
  "lockedOut now (w\<lparr>redisStore := (redisStore w)(''order_assignment:'' @ oid \<mapsto> v)\<rparr>) oid' c
     = lockedOut now w oid' c"
  by (simp add: lockedOut_def)

lemma assignOrder_reachable:
  assumes reachable: "redisFaults w = []"
    and found: "findOneOrder oid w = Some order"
    and pending: "status order = ''pending''"
    and free: "\<not> truthy (liveValue now (redisStore w (''order_assignment:'' @ oid)))"
  shows "assignOrder env now oid w =
     (let w1 = w\<lparr>redisStore := (redisStore w)(''order_assignment:'' @ oid \<mapsto> (''locked'', now + 300 * 1000))\<rparr>;
          nearby = findNearbyDrivers env (pickupLocation order) None w
      in if nearby = []
         then (Inl NoDriversAvailable, w1\<lparr>redisStore := (redisStore w1)(''order_assignment:'' @ oid := None)\<rparr>)
         else case find (\<lambda>c. \<not> lockedOut now w oid c) (take 5 nearby) of
                None \<Rightarrow> (Inl NoDriverAcceptedOffer,
                          w1\<lparr>redisStore := (redisStore w1)(''order_assignment:'' @ oid := None)\<rparr>)
              | Some drv \<Rightarrow>
                  (Inr (offerSuccess env drv),
                   (placed env now order drv w1)
                     \<lparr>redisStore := (redisStore (placed env now order drv w1))
                                       (''order_assignment:'' @ oid := None)\<rparr>))"
proof -
  define w1 where "w1 = w\<lparr>redisStore := (redisStore w)(''order_assignment:'' @ oid \<mapsto> (''locked'', now + 300 * 1000))\<rparr>"
  define nearby where "nearby = findNearbyDrivers env (pickupLocation order) None w"
  have oid: "orderId order = oid" using found by (rule findOneOrder_orderId)
  have valid: "status order \<in> set statusEnum" using pending by (simp add: statusEnum_def)
  have rf: "redisFaults w1 = []" using reachable by (simp add: w1_def)
  have near: "findNearbyDrivers env (pickupLocation order) None w1 = nearby"
    unfolding nearby_def by (rule findNearbyDrivers_users) (simp add: w1_def)
  have lo: "lockedOut now w1 oid c = lockedOut now w oid c" for c
    unfolding w1_def by (rule lockedOut_assignment_key)
  have loop: "offerLoop env now (''order_assignment:'' @ oid) order (take 5 nearby) w1 =
           (case find (\<lambda>c. \<not> lockedOut now w oid c) (take 5 nearby) of
              None \<Rightarrow> (Inr None, w1)
            | Some drv \<Rightarrow>
                (Inr (Some (offerSuccess env drv)),
                 (placed env now order drv w1)
                   \<lparr>redisStore := (redisStore (placed env now order drv w1))(''order_assignment:'' @ oid := None)\<rparr>))"
    using offerLoop_reachable [OF rf valid, of env now "''order_assignment:'' @ oid" "take 5 nearby"]
    by (simp add: oid lo)
  show ?thesis
  proof (cases "nearby = []")
    case True
    then show ?thesis
      unfolding assignOrder_def
      using reachable found pending free rf near
      by (simp add: Let_def run_simps tryCatch_def w1_def nearby_def)
  next
    case False
    show ?thesis
    proof (cases "find (\<lambda>c. \<not> lockedOut now w oid c) (take 5 nearby)")
      case None
      then show ?thesis
        unfolding assignOrder_def
        using reachable found pending free rf near loop False
        by (simp add: Let_def run_simps tryCatch_def bindP_def redisGet_ok redisSetEx_ok redisDel_ok w1_def nearby_def)
    next
      case (Some drv)
      then show ?thesis
        unfolding assignOrder_def
        using reachable found pending free rf near loop False
        by (simp add: Let_def run_simps tryCatch_def bindP_def redisGet_ok redisSetEx_ok redisDel_ok w1_def nearby_def)
    qed
  qed
qed

lemma assignOrder_not_pending:
  "findOneOrder oid w = Some order \<Longrightarrow> status order \<noteq> ''pending'' \<Longrightarrow>
   assignOrder env now oid w = (Inl InvalidState, w)"
  by (simp add: assignOrder_def throw_def)

lemma assignOrder_in_progress:
  assumes "redisFaults w = []"
    and "findOneOrder oid w = Some order"
    and "status order = ''pending''"
    and "truthy (liveValue now (redisStore w (''order_assignment:'' @ oid)))"
  shows "assignOrder env now oid w = (Inl AlreadyInProgress, w)"
  using assms by (simp add: assignOrder_def Let_def run_simps)

subsection \<open>Candidate lists\<close>

lemma find_split:
  "find P xs = Some x \<Longrightarrow> \<exists>pre post. xs = pre @ x # post \<and> P x \<and> (\<forall>y\<in>set pre. \<not> P y)"
proof (induction xs)
  case Nil
  then show ?case by simp
next
  case (Cons a xs)
  show ?case
  proof (cases "P a")
    case True
    with Cons.prems have "a = x" by simp
    with True have "a # xs = [] @ x # xs \<and> P x \<and> (\<forall>y\<in>set []. \<not> P y)" by simp
    then show ?thesis by blast
  next
    case False
    with Cons.prems have "find P xs = Some x" by simp
    from Cons.IH [OF this] obtain pre post where
      "xs = pre @ x # post" "P x" "\<forall>y\<in>set pre. \<not> P y" by blast
    with False have "a # xs = (a # pre) @ x # post \<and> P x \<and> (\<forall>y\<in>set (a # pre). \<not> P y)" by simp
    then show ?thesis by blast
  qed
qed

lemma find_first:
  "xs = pre @ x # post \<Longrightarrow> \<forall>y\<in>set pre. \<not> P y \<Longrightarrow> P x \<Longrightarrow> find P xs = Some x"
  by (induction pre arbitrary: xs) auto

lemma find_none: "\<forall>y\<in>set xs. \<not> P y \<Longrightarrow> find P xs = None"
  by (simp add: find_None_iff)

lemma findNearbyDrivers_sorted:
  "sorted (map distanceToPickup (findNearbyDrivers env pickup r w))"
  by (simp add: findNearbyDrivers_def Let_def)

lemma findNearbyDrivers_set:
  "cUser ` set (findNearbyDrivers env pickup None w) =
     {u \<in> set (users w). userType u = ''driver'' \<and> isActive u \<and> isAvailable u
                          \<and> nearDistance env pickup (currentLocation u) \<le> 5 * 1000}"
  by (simp add: findNearbyDrivers_def Let_def image_image) 

lemma findNearbyDrivers_distance:
  "c \<in> set (findNearbyDrivers env pickup r w) \<Longrightarrow>
   Num (distanceToPickup c) =
     calculateDistance (metres (getDistance env)) pickup (currentLocation (cUser c))"
  by (auto simp add: findNearbyDrivers_def Let_def calculateDistance_metres)

lemma sorted_prefix_le:
  assumes "sorted (map f xs)" and "take n xs = pre @ x # post" and "y \<in> set pre"
  shows "f y \<le> f x"
proof -
  have "sorted (map f (take n xs))" using assms(1) by (simp add: take_map [symmetric] sorted_wrt_take)
  then have "sorted (map f pre @ f x # map f post)" by (simp add: assms(2))
  then show ?thesis using assms(3) by (auto simp add: sorted_append)
qed

lemma sorted_take_drop_le:
  assumes "sorted (map f xs)" and "y \<in> set (take n xs)" and "z \<in> set (drop n xs)"
  shows "f y \<le> f z"
proof -
  have "sorted (map f (take n xs) @ map f (drop n xs))"
    using assms(1) by (metis append_take_drop_id map_append)
  then show ?thesis using assms(2,3) by (auto simp add: sorted_append)
qed

section \<open>Answers of a driver\<close>

text \<open>
  C1.  An order has an outstanding offer to a driver (a pending attempt of that driver)
  and the two lock keys are consistent: \<^verbatim>\<open>driver_lock:{driverId}\<close> holds the order
  and \<^verbatim>\<open>order_lock:{orderId}\<close> holds the driver.  Then accepting succeeds; the stored
  order has status accepted and is assigned to the driver, the driver's first pending
  attempt is marked accepted with the time of the answer, the lock fields of the order
  are cleared, the driver is no longer available, and both lock keys are deleted.
\<close>

theorem handleDriverResponse_accept:
  assumes reachable: "redisFaults w = []"
    and found: "findOneOrder oid w = Some order"
    and driverLock: "liveValue now (redisStore w (''driver_lock:'' @ did)) = Some oid"
    and orderLock: "liveValue now (redisStore w (''order_lock:'' @ oid)) = Some did"
    and offer: "\<exists>a\<in>set (assignmentAttempts order). attemptDriver a = did \<and> response a = Pending"
  shows "\<exists>r w' order' i.
           handleDriverResponse now oid did ''accept'' w = (Inr r, w')
         \<and> responseSuccess r
         \<and> findOneOrder oid w' = Some order'
         \<and> status order' = ''accepted''
         \<and> driver order' = Some did
         \<and> i < length (assignmentAttempts order)
         \<and> attemptDriver (assignmentAttempts order ! i) = did
         \<and> response (assignmentAttempts order ! i) = Pending
         \<and> assignmentAttempts order' =
             (assignmentAttempts order)[i := (assignmentAttempts order ! i)
                                             \<lparr>response := Accepted, respondedAt := Some now\<rparr>]
         \<and> \<not> isLocked order' \<and> lockedBy order' = None \<and> lockExpiration order' = None
         \<and> (\<forall>u\<in>set (users w'). userId u = did \<longrightarrow> \<not> isAvailable u)
         \<and> redisStore w' (''driver_lock:'' @ did) = None
         \<and> redisStore w' (''order_lock:'' @ oid) = None"
proof -
  from offer obtain i where
    i: "findIndex (\<lambda>a. attemptDriver a = did \<and> response a = Pending) (assignmentAttempts order) = Some i"
    using findIndex_exists [of "assignmentAttempts order" "\<lambda>a. attemptDriver a = did \<and> response a = Pending"] by blast
  note first = findIndex_first [OF i]
  have oid: "orderId order = oid" using found by (rule findOneOrder_orderId)
  define order' where "order' = releaseLock (updateStatus now ''accepted'' (Some did)
                                      (recordAnswer now did ''accept'' order))"
  define w' where "w' = w\<lparr>orders := map (storeDoc order') (orders w),
      users := map (markUnavailable did) (users w),
      redisStore := (redisStore w)(''driver_lock:'' @ did := None, ''order_lock:'' @ oid := None),
      emitted := emitted w @ [Emit (''customer:'' @ customer order) ''order_accepted'' oid,
                              Emit (''driver:'' @ did) ''order_assignment_confirmed'' oid]\<rparr>"
  have run: "handleDriverResponse now oid did ''accept'' w =
      (Inr \<lparr>responseSuccess = True, responseMessage = ''Order accepted successfully'',
            responseOrderId = Some oid\<rparr>, w')"
    unfolding w'_def order'_def by (rule accept_run [OF reachable found driverLock orderLock])
  have st: "status order' = ''accepted''" and oid': "orderId order' = oid"
    by (simp_all add: order'_def releaseLock_def updateStatus_def recordAnswer_fields oid)
  have stored: "findOneOrder oid w' = Some order'"
  proof -
    have "orders w' = map (storeDoc order') (orders w)" by (simp add: w'_def)
    with found oid' show ?thesis unfolding findOneOrder_def by (simp add: find_stored)
  qed
  have fields: "driver order' = Some did"
    "assignmentAttempts order' =
             (assignmentAttempts order)[i := (assignmentAttempts order ! i)
                                             \<lparr>response := Accepted, respondedAt := Some now\<rparr>]"
    "\<not> isLocked order'" "lockedBy order' = None" "lockExpiration order' = None"
    by (simp_all add: order'_def releaseLock_def updateStatus_def recordAnswer_found [OF i])
  have "users w' = map (markUnavailable did) (users w)" by (simp add: w'_def)
  then have drivers: "\<forall>u\<in>set (users w'). userId u = did \<longrightarrow> \<not> isAvailable u"
    using markUnavailable_set by metis
  have keys: "redisStore w' (''driver_lock:'' @ did) = None" "redisStore w' (''order_lock:'' @ oid) = None"
    by (simp_all add: w'_def)
  show ?thesis
    apply (rule exI [of _ "\<lparr>responseSuccess = True, responseMessage = ''Order accepted successfully'',
            responseOrderId = Some oid\<rparr>"])
    apply (rule exI [of _ w'])
    apply (rule exI [of _ order'])
    apply (rule exI [of _ i])
    apply (intro conjI)
    using run stored st fields first drivers keys apply simp_all
    done
qed

theorem handleDriverResponse_accept_witness:
  "\<exists>r w' order'.
     handleDriverResponse 2000 ''ORD-1'' ''D1'' ''accept'' (offeredWorld []) = (Inr r, w')
   \<and> responseSuccess r
   \<and> findOneOrder ''ORD-1'' w' = Some order'
   \<and> status order' = ''accepted''
   \<and> driver order' = Some ''D1''
   \<and> \<not> isLocked order' \<and> lockedBy order' = None \<and> lockExpiration order' = None
   \<and> (\<forall>u\<in>set (users w'). userId u = ''D1'' \<longrightarrow> \<not> isAvailable u)
   \<and> redisStore w' (''driver_lock:'' @ ''D1'') = None
   \<and> redisStore w' (''order_lock:'' @ ''ORD-1'') = None"
proof -
  have h1: "redisFaults (offeredWorld []) = []" by (simp add: offeredWorld_def)
  have h3: "liveValue 2000 (redisStore (offeredWorld []) (''driver_lock:'' @ ''D1'')) = Some ''ORD-1''"
    using lockKeys_live(1) [of 2000] by (simp add: offeredWorld_def)
  have h4: "liveValue 2000 (redisStore (offeredWorld []) (''order_lock:'' @ ''ORD-1'')) = Some ''D1''"
    using lockKeys_live(2) [of 2000] by (simp add: offeredWorld_def)
  have h5: "\<exists>a\<in>set (assignmentAttempts (order0\<lparr>assignmentAttempts := [] @ [pendingAttempt ''D1''],
                   isLocked := True, lockedBy := Some ''D1'', lockExpiration := Some 301000\<rparr>)).
              attemptDriver a = ''D1'' \<and> response a = Pending"
    by (simp add: pendingAttempt_def)
  from handleDriverResponse_accept [OF h1 offeredWorld_found h3 h4 h5]
  show ?thesis by blast
qed

text \<open>
  C6, as the claim states it: with consistent lock keys and no pending attempt of the
  driver, the answer is refused and the order is left as it was.  In the world
  \<open>lockedWorld\<close> the order has no attempt at all, yet accepting succeeds and the
  order's status changes from pending to accepted.
\<close>

theorem handleDriverResponse_no_attempt_counterexample:
  "assignmentAttempts order0 = []
   \<and> findOneOrder ''ORD-1'' lockedWorld = Some order0
   \<and> fst (handleDriverResponse 2000 ''ORD-1'' ''D1'' ''accept'' lockedWorld) =
       Inr \<lparr>responseSuccess = True, responseMessage = ''Order accepted successfully'',
            responseOrderId = Some ''ORD-1''\<rparr>
   \<and> map status (orders (snd (handleDriverResponse 2000 ''ORD-1'' ''D1'' ''accept'' lockedWorld)))
       = [''accepted'']
   \<and> map status (orders lockedWorld) = [''pending'']"
proof -
  have h1: "redisFaults lockedWorld = []" by (simp add: lockedWorld_def world0_def)
  have h2: "findOneOrder ''ORD-1'' lockedWorld = Some order0"
    by (simp add: findOneOrder_def lockedWorld_def world0_def order0_def)
  have h3: "liveValue 2000 (redisStore lockedWorld (''driver_lock:'' @ ''D1'')) = Some ''ORD-1''"
    using lockKeys_live(1) [of 2000] by (simp add: lockedWorld_def)
  have h4: "liveValue 2000 (redisStore lockedWorld (''order_lock:'' @ ''ORD-1'')) = Some ''D1''"
    using lockKeys_live(2) [of 2000] by (simp add: lockedWorld_def)
  have os: "orders lockedWorld = [order0]" by (simp add: lockedWorld_def world0_def)
  have st: "status (releaseLock (updateStatus 2000 ''accepted'' (Some ''D1'')
                                      (recordAnswer 2000 ''D1'' ''accept'' order0))) = ''accepted''"
    by (simp add: releaseLock_def updateStatus_def)
  have a: "assignmentAttempts order0 = []" "status order0 = ''pending''" "orderId order0 = ''ORD-1''"
    by (simp_all add: order0_def)
  show ?thesis
    unfolding accept_run [OF h1 h2 h3 h4]
    using h2 a st by (simp add: os storeDoc_def recordAnswer_fields releaseLock_def updateStatus_def)
qed

text \<open>
  C6, amended.  With consistent lock keys the answer is processed whether or not the
  order has a pending attempt of the driver: when it has none, the attempt history is
  left unchanged and accept or decline handling goes on (the lock is released, and on
  accept the order becomes accepted and assigned); when it has one, the first such
  attempt of the history, and no other, is marked accepted or declined with the time of
  the answer.
\<close>

theorem handleDriverResponse_attempt_record:
  assumes reachable: "redisFaults w = []"
    and found: "findOneOrder oid w = Some order"
    and driverLock: "liveValue now (redisStore w (''driver_lock:'' @ did)) = Some oid"
    and orderLock: "liveValue now (redisStore w (''order_lock:'' @ oid)) = Some did"
    and valid: "status order \<in> set statusEnum"
  shows "\<exists>r w' order'.
           handleDriverResponse now oid did reply w = (Inr r, w')
         \<and> responseSuccess r
         \<and> findOneOrder oid w' = Some order'
         \<and> ((\<forall>a\<in>set (assignmentAttempts order). \<not> (attemptDriver a = did \<and> response a = Pending))
              \<longrightarrow> assignmentAttempts order' = assignmentAttempts order)
         \<and> ((\<exists>a\<in>set (assignmentAttempts order). attemptDriver a = did \<and> response a = Pending)
              \<longrightarrow> (\<exists>i<length (assignmentAttempts order).
                     attemptDriver (assignmentAttempts order ! i) = did
                   \<and> response (assignmentAttempts order ! i) = Pending
                   \<and> (\<forall>j<i. \<not> (attemptDriver (assignmentAttempts order ! j) = did
                                 \<and> response (assignmentAttempts order ! j) = Pending))
                   \<and> assignmentAttempts order' =
                       (assignmentAttempts order)[i := (assignmentAttempts order ! i)
                          \<lparr>response := (if reply = ''accept'' then Accepted else Declined),
                           respondedAt := Some now\<rparr>]))
         \<and> \<not> isLocked order' \<and> lockedBy order' = None \<and> lockExpiration order' = None
         \<and> (reply = ''accept'' \<longrightarrow> status order' = ''accepted'' \<and> driver order' = Some did)
         \<and> redisStore w' (''driver_lock:'' @ did) = None
         \<and> redisStore w' (''order_lock:'' @ oid) = None"
proof -
  let ?P = "\<lambda>a. attemptDriver a = did \<and> response a = Pending"
  let ?as = "assignmentAttempts order"
  have oid: "orderId order = oid" using found by (rule findOneOrder_orderId)
  define answered where "answered = recordAnswer now did reply order"
  have none: "(\<forall>a\<in>set ?as. \<not> ?P a) \<longrightarrow> assignmentAttempts answered = ?as"
    using recordAnswer_none [of did order now reply] findIndex_None [of ?P ?as]
    by (simp add: answered_def)
  have some: "(\<exists>a\<in>set ?as. ?P a) \<longrightarrow> (\<exists>i<length ?as.
                     attemptDriver (?as ! i) = did \<and> response (?as ! i) = Pending
                   \<and> (\<forall>j<i. \<not> (attemptDriver (?as ! j) = did \<and> response (?as ! j) = Pending))
                   \<and> assignmentAttempts answered =
                       ?as[i := (?as ! i)\<lparr>response := (if reply = ''accept'' then Accepted else Declined),
                           respondedAt := Some now\<rparr>])"
  proof
    assume "\<exists>a\<in>set ?as. ?P a"
    then obtain i where i: "findIndex ?P ?as = Some i"
      using findIndex_exists [of ?as ?P] by blast
    from findIndex_first [OF i] recordAnswer_found [OF i, of now reply]
    show "\<exists>i<length ?as. attemptDriver (?as ! i) = did \<and> response (?as ! i) = Pending
                   \<and> (\<forall>j<i. \<not> (attemptDriver (?as ! j) = did \<and> response (?as ! j) = Pending))
                   \<and> assignmentAttempts answered =
                       ?as[i := (?as ! i)\<lparr>response := (if reply = ''accept'' then Accepted else Declined),
                           respondedAt := Some now\<rparr>]"
      unfolding answered_def by blast
  qed
  show ?thesis
  proof (cases "reply = ''accept''")
    case True
    define order' where "order' = releaseLock (updateStatus now ''accepted'' (Some did) answered)"
    define w' where "w' = w\<lparr>orders := map (storeDoc order') (orders w),
      users := map (markUnavailable did) (users w),
      redisStore := (redisStore w)(''driver_lock:'' @ did := None, ''order_lock:'' @ oid := None),
      emitted := emitted w @ [Emit (''customer:'' @ customer order) ''order_accepted'' oid,
                              Emit (''driver:'' @ did) ''order_assignment_confirmed'' oid]\<rparr>"
    have run: "handleDriverResponse now oid did reply w =
      (Inr \<lparr>responseSuccess = True, responseMessage = ''Order accepted successfully'',
            responseOrderId = Some oid\<rparr>, w')"
      unfolding w'_def order'_def answered_def True
      by (rule accept_run [OF reachable found driverLock orderLock])
    have oid': "orderId order' = oid"
      by (simp add: order'_def answered_def releaseLock_def updateStatus_def recordAnswer_fields oid)
    have stored: "findOneOrder oid w' = Some order'"
    proof -
      have "orders w' = map (storeDoc order') (orders w)" by (simp add: w'_def)
      with found oid' show ?thesis unfolding findOneOrder_def by (simp add: find_stored)
    qed
    have fields: "assignmentAttempts order' = assignmentAttempts answered"
      "\<not> isLocked order'" "lockedBy order' = None" "lockExpiration order' = None"
      "status order' = ''accepted''" "driver order' = Some did"
      by (simp_all add: order'_def releaseLock_def updateStatus_def)
    have keys: "redisStore w' (''driver_lock:'' @ did) = None" "redisStore w' (''order_lock:'' @ oid) = None"
      by (simp_all add: w'_def)
    show ?thesis
      apply (rule exI [of _ "\<lparr>responseSuccess = True, responseMessage = ''Order accepted successfully'',
            responseOrderId = Some oid\<rparr>"])
      apply (rule exI [of _ w'])
      apply (rule exI [of _ order'])
      using run stored none some keys by (simp add: fields)
  next
    case False
    define order' where "order' = releaseLock answered"
    define w' where "w' = w\<lparr>orders := map (storeDoc order') (orders w),
         redisStore := (redisStore w)(''driver_lock:'' @ did := None, ''order_lock:'' @ oid := None),
         timers := (if length (filter (\<lambda>a. response a \<noteq> Pending)
                                 (assignmentAttempts answered)) < 10
                    then timers w @ [(2000, oid)] else timers w)\<rparr>"
    have run: "handleDriverResponse now oid did reply w =
      (Inr \<lparr>responseSuccess = True, responseMessage = ''Order declined, trying next driver'',
            responseOrderId = None\<rparr>, w')"
      unfolding w'_def order'_def answered_def
      by (rule decline_run [OF reachable found driverLock orderLock False valid])
    have oid': "orderId order' = oid"
      by (simp add: order'_def answered_def releaseLock_def recordAnswer_fields oid)
    have stored: "findOneOrder oid w' = Some order'"
    proof -
      have "orders w' = map (storeDoc order') (orders w)" by (simp add: w'_def)
      with found oid' show ?thesis unfolding findOneOrder_def by (simp add: find_stored)
    qed
    have fields: "assignmentAttempts order' = assignmentAttempts answered"
      "\<not> isLocked order'" "lockedBy order' = None" "lockExpiration order' = None"
      by (simp_all add: order'_def releaseLock_def)
    have keys: "redisStore w' (''driver_lock:'' @ did) = None" "redisStore w' (''order_lock:'' @ oid) = None"
      by (simp_all add: w'_def)
    show ?thesis
      apply (rule exI [of _ "\<lparr>responseSuccess = True, responseMessage = ''Order declined, trying next driver'',
            responseOrderId = None\<rparr>"])
      apply (rule exI [of _ w'])
      apply (rule exI [of _ order'])
      using run stored none some keys False by (simp add: fields)
  qed
qed

theorem handleDriverResponse_attempt_record_witness:
  "\<exists>r w' order'.
     handleDriverResponse 2000 ''ORD-1'' ''D1'' ''decline'' (offeredWorld [pendingAttempt ''D1'']) = (Inr r, w')
   \<and> responseSuccess r
   \<and> findOneOrder ''ORD-1'' w' = Some order'
   \<and> assignmentAttempts order' =
       [(pendingAttempt ''D1'')\<lparr>response := Declined, respondedAt := Some 2000\<rparr>, pendingAttempt ''D1'']
   \<and> \<not> isLocked order'
   \<and> redisStore w' (''driver_lock:'' @ ''D1'') = None
   \<and> redisStore w' (''order_lock:'' @ ''ORD-1'') = None"
proof -
  let ?w = "offeredWorld [pendingAttempt ''D1'']"
  let ?order = "order0\<lparr>assignmentAttempts := [pendingAttempt ''D1''] @ [pendingAttempt ''D1''],
                   isLocked := True, lockedBy := Some ''D1'', lockExpiration := Some 301000\<rparr>"
  let ?P = "\<lambda>a. attemptDriver a = ''D1'' \<and> response a = Pending"
  have h1: "redisFaults ?w = []" by (simp add: offeredWorld_def)
  have h3: "liveValue 2000 (redisStore ?w (''driver_lock:'' @ ''D1'')) = Some ''ORD-1''"
    using lockKeys_live(1) [of 2000] by (simp add: offeredWorld_def)
  have h4: "liveValue 2000 (redisStore ?w (''order_lock:'' @ ''ORD-1'')) = Some ''D1''"
    using lockKeys_live(2) [of 2000] by (simp add: offeredWorld_def)
  have h5: "status ?order \<in> set statusEnum"
    by (simp add: order0_def statusEnum_def)
  have as: "assignmentAttempts ?order = [pendingAttempt ''D1'', pendingAttempt ''D1'']" by simp
  have p: "?P (pendingAttempt ''D1'')" by (simp add: pendingAttempt_def)
  have ex: "\<exists>a\<in>set (assignmentAttempts ?order). ?P a" using p by simp
  from handleDriverResponse_attempt_record [OF h1 offeredWorld_found h3 h4 h5, of "''decline''"] ex
  obtain r w' order' i where
    run: "handleDriverResponse 2000 ''ORD-1'' ''D1'' ''decline'' ?w = (Inr r, w')"
      "responseSuccess r" "findOneOrder ''ORD-1'' w' = Some order'"
      "\<not> isLocked order'"
      "redisStore w' (''driver_lock:'' @ ''D1'') = None"
      "redisStore w' (''order_lock:'' @ ''ORD-1'') = None"
    and first: "\<forall>j<i. \<not> ?P (assignmentAttempts ?order ! j)"
    and marked: "assignmentAttempts order' =
       (assignmentAttempts ?order)[i := (assignmentAttempts ?order ! i)
          \<lparr>response := (if ''decline'' = ''accept'' then Accepted else Declined),
           respondedAt := Some 2000\<rparr>]"
    by blast
  have "i = 0"
  proof (rule ccontr)
    assume "i \<noteq> 0"
    then have "0 < i" by simp
    with first have "\<not> ?P (assignmentAttempts ?order ! 0)" by blast
    with p show False by simp
  qed
  with marked have "assignmentAttempts order' =
       [(pendingAttempt ''D1'')\<lparr>response := Declined, respondedAt := Some 2000\<rparr>, pendingAttempt ''D1'']"
    by simp
  with run show ?thesis by blast
qed

text \<open>
  C3.  The claim: a decline that brings the number of resolved attempts to the maximum
  of 10 transitions the order to failed and notifies the customer.  In the world below
  nine drivers have declined and \<^verbatim>\<open>D1\<close> declines as the tenth.
  \<^verbatim>\<open>markOrderAsFailed\<close> is called, but \<^verbatim>\<open>failed\<close> is not a value of the
  schema's status enum: the save is rejected, the exception is caught and logged, and
  the notification after the save is never sent.  The order stays pending with ten
  resolved attempts, nothing is emitted and nothing is scheduled.
\<close>

theorem decline_at_maximum_not_failed:
  "fst (handleDriverResponse 2000 ''ORD-1'' ''D1'' ''decline'' (offeredWorld nineDeclined)) =
       Inr \<lparr>responseSuccess = True, responseMessage = ''Order declined, trying next driver'',
            responseOrderId = None\<rparr>
   \<and> map (\<lambda>d. (status d, length (filter (\<lambda>a. response a \<noteq> Pending) (assignmentAttempts d)), isLocked d))
         (orders (snd (handleDriverResponse 2000 ''ORD-1'' ''D1'' ''decline'' (offeredWorld nineDeclined))))
       = [(''pending'', 10, False)]
   \<and> emitted (snd (handleDriverResponse 2000 ''ORD-1'' ''D1'' ''decline'' (offeredWorld nineDeclined))) = []
   \<and> timers (snd (handleDriverResponse 2000 ''ORD-1'' ''D1'' ''decline'' (offeredWorld nineDeclined))) = []"
proof -
  let ?w = "offeredWorld nineDeclined"
  let ?order = "order0\<lparr>assignmentAttempts := nineDeclined @ [pendingAttempt ''D1''],
                   isLocked := True, lockedBy := Some ''D1'', lockExpiration := Some 301000\<rparr>"
  have h1: "redisFaults ?w = []" by (simp add: offeredWorld_def)
  have h3: "liveValue 2000 (redisStore ?w (''driver_lock:'' @ ''D1'')) = Some ''ORD-1''"
    using lockKeys_live(1) [of 2000] by (simp add: offeredWorld_def)
  have h4: "liveValue 2000 (redisStore ?w (''order_lock:'' @ ''ORD-1'')) = Some ''D1''"
    using lockKeys_live(2) [of 2000] by (simp add: offeredWorld_def)
  have h5: "''decline'' \<noteq> ''accept''" by simp
  have h6: "status ?order \<in> set statusEnum" by (simp add: order0_def statusEnum_def)
  have i: "findIndex (\<lambda>a. attemptDriver a = ''D1'' \<and> response a = Pending) (assignmentAttempts ?order) = Some 9"
    by (simp add: nineDeclined_def declinedAttempt_def pendingAttempt_def)
  have as: "assignmentAttempts (recordAnswer 2000 ''D1'' ''decline'' ?order) =
      nineDeclined @ [(pendingAttempt ''D1'')\<lparr>response := Declined, respondedAt := Some 2000\<rparr>]"
    unfolding recordAnswer_found [OF i] by (simp add: nineDeclined_def)
  have n: "length (filter (\<lambda>a. response a \<noteq> Pending) nineDeclined) = 9"
    by (simp add: nineDeclined_def declinedAttempt_def)
  have os: "orders ?w = [?order]" "emitted ?w = []" "timers ?w = []" by (simp_all add: offeredWorld_def)
  have st: "status ?order = ''pending''" "orderId ?order = ''ORD-1''" by (simp_all add: order0_def)
  show ?thesis
    unfolding decline_run [OF h1 offeredWorld_found h3 h4 h5 h6]
    using st by (simp add: os as n storeDoc_def releaseLock_def recordAnswer_fields)
qed

theorem decline_at_maximum_not_failed_witness:
  "map status (orders (snd (handleDriverResponse 2000 ''ORD-1'' ''D1'' ''decline''
                              (offeredWorld nineDeclined)))) = [''pending'']
   \<and> emitted (snd (handleDriverResponse 2000 ''ORD-1'' ''D1'' ''decline''
                       (offeredWorld nineDeclined))) = []"
proof -
  let ?ws = "orders (snd (handleDriverResponse 2000 ''ORD-1'' ''D1'' ''decline''
                              (offeredWorld nineDeclined)))"
  from decline_at_maximum_not_failed
  have m: "map (\<lambda>d. (status d, length (filter (\<lambda>a. response a \<noteq> Pending) (assignmentAttempts d)),
                     isLocked d)) ?ws = [(''pending'', 10, False)]"
    and e: "emitted (snd (handleDriverResponse 2000 ''ORD-1'' ''D1'' ''decline''
                       (offeredWorld nineDeclined))) = []"
    by blast+
  have "map status ?ws = map fst (map (\<lambda>d. (status d, length (filter (\<lambda>a. response a \<noteq> Pending)
                     (assignmentAttempts d)), isLocked d)) ?ws)"
    by (simp add: comp_def)
  then have "map status ?ws = [''pending'']" unfolding m by simp
  with e show ?thesis by blast
qed

section \<open>Assigning an order\<close>

text \<open>
  C2, as the claim states it: \<^verbatim>\<open>assignOrder\<close> fails with ``already in progress''
  whenever the key \<^verbatim>\<open>order_lock:{orderId}\<close> is present.  In the world
  \<open>offeredWorld []\<close> an offer to \<^verbatim>\<open>D1\<close> is outstanding and the key is set, yet a
  second \<^verbatim>\<open>assignOrder\<close> passes the check, tries both candidates and fails with
  ``no driver accepted the order''.
\<close>

theorem assignOrder_offer_outstanding_counterexample:
  "liveValue 2000 (redisStore (offeredWorld []) ''order_lock:ORD-1'') = Some ''D1''
   \<and> fst (assignOrder env0 2000 ''ORD-1'' (offeredWorld [])) = Inl NoDriverAcceptedOffer"
proof -
  let ?order = "order0\<lparr>assignmentAttempts := [] @ [pendingAttempt ''D1''],
                   isLocked := True, lockedBy := Some ''D1'', lockExpiration := Some 301000\<rparr>"
  have k: "liveValue 2000 (redisStore (offeredWorld []) ''order_lock:ORD-1'') = Some ''D1''"
    by (simp add: offeredWorld_def lockKeys_def liveValue_def)
  have f: "status ?order = ''pending''" "pickupLocation ?order = \<lparr>latitude = 0, longitude = 0\<rparr>"
    "orderId ?order = ''ORD-1''"
    by (simp_all add: order0_def)
  have w: "redisFaults (offeredWorld []) = []" "users (offeredWorld []) = drivers0"
    "redisStore (offeredWorld []) = lockKeys"
    by (simp_all add: offeredWorld_def)
  have "fst (assignOrder env0 2000 ''ORD-1'' (offeredWorld [])) = Inl NoDriverAcceptedOffer"
    unfolding assignOrder_def offeredWorld_found option.case f
    by (simp add: Let_def run_simps tryCatch_def nearby0 w f bindP_assoc bindP_offer_busy bindP_offer_order_locked
        lockKeys_def liveValue_def truthy_def driverAt_def offerFailed_def order0_def statusEnum_def)
  with k show ?thesis by blast
qed

text \<open>
  C2, amended.  With Redis reachable, \<^verbatim>\<open>assignOrder\<close> on a pending order fails
  with ``already in progress'' exactly when the key \<^verbatim>\<open>order_assignment:{orderId}\<close>
  is present with a truthy value in the lock store, and it then changes nothing.  The
  key \<^verbatim>\<open>order_lock:{orderId}\<close> plays no part in this check.
\<close>

theorem assignOrder_already_in_progress:
  assumes reachable: "redisFaults w = []"
    and found: "findOneOrder oid w = Some order"
    and pending: "status order = ''pending''"
  shows "(truthy (liveValue now (redisStore w (''order_assignment:'' @ oid)))
            \<longrightarrow> assignOrder env now oid w = (Inl AlreadyInProgress, w))
       \<and> (\<not> truthy (liveValue now (redisStore w (''order_assignment:'' @ oid)))
            \<longrightarrow> fst (assignOrder env now oid w) \<noteq> Inl AlreadyInProgress)"
proof (intro conjI impI)
  assume "truthy (liveValue now (redisStore w (''order_assignment:'' @ oid)))"
  with reachable found pending show "assignOrder env now oid w = (Inl AlreadyInProgress, w)"
    by (simp add: assignOrder_def Let_def run_simps)
next
  assume free: "\<not> truthy (liveValue now (redisStore w (''order_assignment:'' @ oid)))"
  note shape = assignOrder_reachable [OF reachable found pending free, of env, unfolded Let_def]
  show "fst (assignOrder env now oid w) \<noteq> Inl AlreadyInProgress"
  proof (cases "findNearbyDrivers env (pickupLocation order) None w = []")
    case True
    with shape show ?thesis by simp
  next
    case False
    show ?thesis
    proof (cases "find (\<lambda>c. \<not> lockedOut now w oid c)
                    (take 5 (findNearbyDrivers env (pickupLocation order) None w))")
      case None
      with shape False show ?thesis by simp
    next
      case (Some drv)
      with shape False show ?thesis by simp
    qed
  qed
qed

theorem assignOrder_already_in_progress_witness:
  "assignOrder env0 2000 ''ORD-1'' assigningWorld = (Inl AlreadyInProgress, assigningWorld)
   \<and> liveValue 2000 (redisStore (offeredWorld []) ''order_lock:ORD-1'') = Some ''D1''
   \<and> fst (assignOrder env0 2000 ''ORD-1'' (offeredWorld [])) \<noteq> Inl AlreadyInProgress"
proof -
  have h1: "redisFaults assigningWorld = []" by (simp add: assigningWorld_def world0_def)
  have h2: "findOneOrder ''ORD-1'' assigningWorld = Some order0"
    by (simp add: findOneOrder_def assigningWorld_def world0_def order0_def)
  have h3: "status order0 = ''pending''" by (simp add: order0_def)
  have h4: "truthy (liveValue 2000 (redisStore assigningWorld (''order_assignment:'' @ ''ORD-1'')))"
    by (simp add: assigningWorld_def liveValue_def truthy_def)
  have g1: "redisFaults (offeredWorld []) = []" by (simp add: offeredWorld_def)
  have g3: "status (order0\<lparr>assignmentAttempts := [] @ [pendingAttempt ''D1''],
                   isLocked := True, lockedBy := Some ''D1'', lockExpiration := Some 301000\<rparr>) = ''pending''"
    by (simp add: order0_def)
  have g4: "\<not> truthy (liveValue 2000 (redisStore (offeredWorld []) (''order_assignment:'' @ ''ORD-1'')))"
    by (simp add: offeredWorld_def lockKeys_def liveValue_def truthy_def)
  have k: "liveValue 2000 (redisStore (offeredWorld []) ''order_lock:ORD-1'') = Some ''D1''"
    by (simp add: offeredWorld_def lockKeys_def liveValue_def)
  from assignOrder_already_in_progress [OF h1 h2 h3, of 2000 env0] h4
    assignOrder_already_in_progress [OF g1 offeredWorld_found g3, of 2000 env0] g4 k
  show ?thesis by blast
qed

text \<open>
  C5, as the claim states it: a failing lock-store operation during
  \<^verbatim>\<open>offerOrderToDriver\<close> surfaces at the caller of \<^verbatim>\<open>assignOrder\<close> and is never
  turned into a per-candidate result.  Below, Redis answers the two commands of
  \<^verbatim>\<open>assignOrder\<close> and fails on the next one, the first command of the offer to the
  nearest driver \<^verbatim>\<open>D1\<close>: the offer to \<^verbatim>\<open>D1\<close> is given up, the order is offered
  to \<^verbatim>\<open>D2\<close>, and \<^verbatim>\<open>assignOrder\<close> returns that success.
\<close>

theorem assignOrder_swallows_store_failure_counterexample:
  "fst (assignOrder env0 1000 ''ORD-1'' (world0\<lparr>redisFaults := [False, False, True]\<rparr>)) =
     Inr \<lparr>success = True, offeredDriver = Some ''D2'', lockTimeoutSeconds = Some 300,
          message = ''Order offered to driver''\<rparr>"
proof -
  let ?w = "world0\<lparr>redisFaults := [False, False, True]\<rparr>"
  have found: "findOneOrder ''ORD-1'' ?w = Some order0"
    by (simp add: findOneOrder_def world0_def order0_def)
  have f: "status order0 = ''pending''" "pickupLocation order0 = \<lparr>latitude = 0, longitude = 0\<rparr>"
    "orderId order0 = ''ORD-1''"
    by (simp_all add: order0_def)
  have w: "users world0 = drivers0" "redisStore world0 = Map.empty" "orders world0 = [order0]"
    "emitted world0 = []"
    by (simp_all add: world0_def)
  have t: "lockTimeoutOf env0 = 300" by (simp add: lockTimeoutOf_def env0_def)
  show ?thesis
    unfolding assignOrder_def found option.case f
    by (simp add: Let_def run_simps tryCatch_def nearby0 w f t bindP_assoc
        bindP_redisGet_pass bindP_redisSetEx_pass bindP_offer_fault bindP_offer_placed
        liveValue_def truthy_def driverAt_def offerFailed_def statusEnum_def)
qed

text \<open>
  C5, amended.  A lock-store failure in \<^verbatim>\<open>assignOrder\<close>'s own reading or setting of
  the \<^verbatim>\<open>order_assignment\<close> key propagates to the caller.
  \<^verbatim>\<open>offerOrderToDriver\<close> never throws: it catches every exception, and a lock-store
  failure on its first command yields the unsuccessful result ``Failed to offer order
  to driver'', after which \<^verbatim>\<open>assignOrder\<close> goes on to the next candidate.
\<close>

theorem store_failure_in_assignOrder:
  "(findOneOrder oid w = Some order \<and> status order = ''pending'' \<and> redisFaults w = True # fs
      \<longrightarrow> fst (assignOrder env now oid w) = Inl StoreUnavailable)
   \<and> (findOneOrder oid w = Some order \<and> status order = ''pending''
        \<and> redisFaults w = False # True # fs
        \<and> \<not> truthy (liveValue now (redisStore w (''order_assignment:'' @ oid)))
      \<longrightarrow> fst (assignOrder env now oid w) = Inl StoreUnavailable)
   \<and> (\<exists>r w'. offerOrderToDriver env now order drv w = (Inr r, w'))
   \<and> (redisFaults w = True # fs
      \<longrightarrow> fst (offerOrderToDriver env now order drv w) =
            Inr (offerFailed ''Failed to offer order to driver'', order))"
proof (intro conjI impI)
  assume "findOneOrder oid w = Some order \<and> status order = ''pending'' \<and> redisFaults w = True # fs"
  then show "fst (assignOrder env now oid w) = Inl StoreUnavailable"
    using assignOrder_get_fault [of oid w order fs env now] by simp
next
  assume "findOneOrder oid w = Some order \<and> status order = ''pending''
        \<and> redisFaults w = False # True # fs
        \<and> \<not> truthy (liveValue now (redisStore w (''order_assignment:'' @ oid)))"
  then show "fst (assignOrder env now oid w) = Inl StoreUnavailable"
    using assignOrder_set_fault [of oid w order fs now env] by simp
next
  show "\<exists>r w'. offerOrderToDriver env now order drv w = (Inr r, w')"
    by (rule offerOrderToDriver_returns)
next
  assume "redisFaults w = True # fs"
  then show "fst (offerOrderToDriver env now order drv w) =
            Inr (offerFailed ''Failed to offer order to driver'', order)"
    by (simp add: offerOrderToDriver_fault)
qed

theorem store_failure_in_assignOrder_witness:
  "fst (assignOrder env0 1000 ''ORD-1'' (world0\<lparr>redisFaults := [True]\<rparr>)) = Inl StoreUnavailable
   \<and> fst (offerOrderToDriver env0 1000 order0
            \<lparr>cUser = driverAt ''D1'' (1 / 100), distanceToPickup = 1\<rparr>
            (world0\<lparr>redisFaults := [True]\<rparr>)) =
       Inr (offerFailed ''Failed to offer order to driver'', order0)"
proof -
  let ?w = "world0\<lparr>redisFaults := [True]\<rparr>"
  have h: "findOneOrder ''ORD-1'' ?w = Some order0 \<and> status order0 = ''pending''
           \<and> redisFaults ?w = True # []"
    by (simp add: findOneOrder_def world0_def order0_def)
  then have h': "redisFaults ?w = True # []" by blast
  from store_failure_in_assignOrder
         [of "''ORD-1''" ?w order0 "[]" env0 1000 "\<lparr>cUser = driverAt ''D1'' (1 / 100), distanceToPickup = 1\<rparr>"]
       h h'
  show ?thesis by blast
qed

text \<open>
  C7.  \<^verbatim>\<open>assignOrder\<close> asks for the available drivers within the default radius of
  5 km of the pickup point, orders them by ascending distance to the pickup, keeps the
  first five and offers the order to them one after the other, nearest first, stopping
  at the first offer that is placed.  For a pending order, with Redis reachable and the
  key \<^verbatim>\<open>order_assignment:{orderId}\<close> not set: the list is sorted by distance and
  holds exactly the active, available drivers within 5000 m, and none of its first five
  is farther away than a driver left out.  If the list is empty the call fails with
  ``no available drivers''.  If every one of the first five is locked out the call
  fails with ``no driver accepted'' and has offered nothing, whatever the state of the
  drivers beyond the fifth.  Otherwise the call returns the offer to the first of the
  five that is not locked out; every candidate before it is at most as far away; and
  exactly one offer is placed: one event to that driver and one pending attempt
  appended for it.
\<close>

theorem assignOrder_nearest_first:
  assumes reachable: "redisFaults w = []"
    and found: "findOneOrder oid w = Some order"
    and pending: "status order = ''pending''"
    and free: "\<not> truthy (liveValue now (redisStore w (''order_assignment:'' @ oid)))"
  shows "sorted (map distanceToPickup (findNearbyDrivers env (pickupLocation order) None w))
       \<and> cUser ` set (findNearbyDrivers env (pickupLocation order) None w) =
           {u \<in> set (users w). userType u = ''driver'' \<and> isActive u \<and> isAvailable u
              \<and> nearDistance env (pickupLocation order) (currentLocation u) \<le> 5 * 1000}
       \<and> (\<forall>c\<in>set (findNearbyDrivers env (pickupLocation order) None w).
             Num (distanceToPickup c) =
               calculateDistance (metres (getDistance env)) (pickupLocation order)
                 (currentLocation (cUser c)))
       \<and> (\<forall>c\<in>set (take 5 (findNearbyDrivers env (pickupLocation order) None w)).
           \<forall>c'\<in>set (drop 5 (findNearbyDrivers env (pickupLocation order) None w)).
             distanceToPickup c \<le> distanceToPickup c')
       \<and> (findNearbyDrivers env (pickupLocation order) None w = [] \<longrightarrow>
             fst (assignOrder env now oid w) = Inl NoDriversAvailable
           \<and> emitted (snd (assignOrder env now oid w)) = emitted w
           \<and> orders (snd (assignOrder env now oid w)) = orders w)
       \<and> (findNearbyDrivers env (pickupLocation order) None w \<noteq> []
          \<and> (\<forall>c\<in>set (take 5 (findNearbyDrivers env (pickupLocation order) None w)).
                lockedOut now w oid c) \<longrightarrow>
             fst (assignOrder env now oid w) = Inl NoDriverAcceptedOffer
           \<and> emitted (snd (assignOrder env now oid w)) = emitted w
           \<and> orders (snd (assignOrder env now oid w)) = orders w)
       \<and> (\<forall>pre drv post.
             take 5 (findNearbyDrivers env (pickupLocation order) None w) = pre @ drv # post
           \<and> (\<forall>c\<in>set pre. lockedOut now w oid c)
           \<and> \<not> lockedOut now w oid drv \<longrightarrow>
             fst (assignOrder env now oid w) =
               Inr \<lparr>success = True, offeredDriver = Some (userId (cUser drv)),
                    lockTimeoutSeconds = Some (lockTimeoutOf env),
                    message = ''Order offered to driver''\<rparr>
           \<and> (\<forall>c\<in>set pre. distanceToPickup c \<le> distanceToPickup drv)
           \<and> emitted (snd (assignOrder env now oid w)) =
               emitted w @ [Emit (''driver:'' @ userId (cUser drv)) ''new_order_offer'' oid]
           \<and> (\<exists>order'. findOneOrder oid (snd (assignOrder env now oid w)) = Some order'
                 \<and> assignmentAttempts order' = assignmentAttempts order @
                      [\<lparr>attemptDriver = userId (cUser drv), attemptedAt = now,
                        response = Pending, respondedAt = None\<rparr>]
                 \<and> isLocked order' \<and> lockedBy order' = Some (userId (cUser drv))))"
proof -
  let ?nearby = "findNearbyDrivers env (pickupLocation order) None w"
  let ?w1 = "w\<lparr>redisStore := (redisStore w)(''order_assignment:'' @ oid \<mapsto> (''locked'', now + 300 * 1000))\<rparr>"
  let ?run = "assignOrder env now oid w"
  have oid: "orderId order = oid" using found by (rule findOneOrder_orderId)
  note shape = assignOrder_reachable [OF reachable found pending free, of env, unfolded Let_def]
  have five: "\<forall>c\<in>set (take 5 ?nearby). \<forall>c'\<in>set (drop 5 ?nearby).
               distanceToPickup c \<le> distanceToPickup c'"
    using sorted_take_drop_le [OF findNearbyDrivers_sorted] by blast
  have dist: "\<forall>c\<in>set ?nearby. Num (distanceToPickup c) =
                 calculateDistance (metres (getDistance env)) (pickupLocation order) (currentLocation (cUser c))"
    using findNearbyDrivers_distance by blast
  have empty: "fst ?run = Inl NoDriversAvailable \<and> emitted (snd ?run) = emitted w
               \<and> orders (snd ?run) = orders w"
    if "?nearby = []"
    using shape that by simp
  have locked: "fst ?run = Inl NoDriverAcceptedOffer \<and> emitted (snd ?run) = emitted w
               \<and> orders (snd ?run) = orders w"
    if ne: "?nearby \<noteq> []" and all: "\<forall>c\<in>set (take 5 ?nearby). lockedOut now w oid c"
  proof -
    have "find (\<lambda>c. \<not> lockedOut now w oid c) (take 5 ?nearby) = None"
      using all by (simp add: find_None_iff)
    with shape ne show ?thesis by simp
  qed
  have offer: "fst ?run =
               Inr \<lparr>success = True, offeredDriver = Some (userId (cUser drv)),
                    lockTimeoutSeconds = Some (lockTimeoutOf env),
                    message = ''Order offered to driver''\<rparr>
           \<and> (\<forall>c\<in>set pre. distanceToPickup c \<le> distanceToPickup drv)
           \<and> emitted (snd ?run) =
               emitted w @ [Emit (''driver:'' @ userId (cUser drv)) ''new_order_offer'' oid]
           \<and> (\<exists>order'. findOneOrder oid (snd ?run) = Some order'
                 \<and> assignmentAttempts order' = assignmentAttempts order @
                      [\<lparr>attemptDriver = userId (cUser drv), attemptedAt = now,
                        response = Pending, respondedAt = None\<rparr>]
                 \<and> isLocked order' \<and> lockedBy order' = Some (userId (cUser drv)))"
    if split: "take 5 ?nearby = pre @ drv # post" "\<forall>c\<in>set pre. lockedOut now w oid c"
      "\<not> lockedOut now w oid drv"
    for pre drv post
  proof -
    define w' where "w' = (placed env now order drv ?w1)
                     \<lparr>redisStore := (redisStore (placed env now order drv ?w1))
                                       (''order_assignment:'' @ oid := None)\<rparr>"
    have ne: "?nearby \<noteq> []" using split(1) by auto
    have drv: "find (\<lambda>c. \<not> lockedOut now w oid c) (take 5 ?nearby) = Some drv"
      using split(1) by (rule find_first) (simp_all add: split)
    from shape ne drv have run: "?run = (Inr (offerSuccess env drv), w')"
      by (simp add: w'_def)
    have res: "fst ?run = Inr \<lparr>success = True, offeredDriver = Some (userId (cUser drv)),
                    lockTimeoutSeconds = Some (lockTimeoutOf env),
                    message = ''Order offered to driver''\<rparr>"
      by (simp add: run offerSuccess_def)
    have nearer: "\<forall>c\<in>set pre. distanceToPickup c \<le> distanceToPickup drv"
      using sorted_prefix_le [OF findNearbyDrivers_sorted split(1)] by blast
    have em: "emitted w' = emitted w @ [Emit (''driver:'' @ userId (cUser drv)) ''new_order_offer'' oid]"
      by (simp add: w'_def placed_def oid)
    define order1 where "order1 = lockForDriver now (userId (cUser drv)) (real (lockTimeoutOf env) / 60) order"
    define order2 where "order2 = offered env now (userId (cUser drv)) order"
    have ids: "orderId order1 = oid" "orderId order2 = oid"
      by (simp_all add: order1_def order2_def offered_def lockForDriver_def oid)
    have os: "orders w' = map (storeDoc order2) (map (storeDoc order1) (orders w))"
      by (simp add: w'_def placed_def order1_def order2_def)
    have "find (\<lambda>d. orderId d = oid) (map (storeDoc order1) (orders w)) = Some order1"
      using found ids(1) unfolding findOneOrder_def by (rule find_stored)
    then have "find (\<lambda>d. orderId d = oid) (map (storeDoc order2) (map (storeDoc order1) (orders w))) = Some order2"
      using ids(2) by (rule find_stored)
    then have stored: "findOneOrder oid w' = Some order2" by (simp add: findOneOrder_def os)
    have fields: "assignmentAttempts order2 = assignmentAttempts order @
                      [\<lparr>attemptDriver = userId (cUser drv), attemptedAt = now,
                        response = Pending, respondedAt = None\<rparr>]"
      "isLocked order2" "lockedBy order2 = Some (userId (cUser drv))"
      by (simp_all add: order2_def offered_def lockForDriver_def)
    have final: "\<exists>order'. findOneOrder oid w' = Some order'
                 \<and> assignmentAttempts order' = assignmentAttempts order @
                      [\<lparr>attemptDriver = userId (cUser drv), attemptedAt = now,
                        response = Pending, respondedAt = None\<rparr>]
                 \<and> isLocked order' \<and> lockedBy order' = Some (userId (cUser drv))"
      using stored fields by blast
    have snd: "snd ?run = w'" by (simp add: run)
    show ?thesis unfolding snd using res nearer em final by blast
  qed
  show ?thesis
  proof (intro conjI)
    show "sorted (map distanceToPickup ?nearby)" by (rule findNearbyDrivers_sorted)
    show "cUser ` set ?nearby =
           {u \<in> set (users w). userType u = ''driver'' \<and> isActive u \<and> isAvailable u
              \<and> nearDistance env (pickupLocation order) (currentLocation u) \<le> 5 * 1000}"
      by (rule findNearbyDrivers_set)
    show "\<forall>c\<in>set ?nearby. Num (distanceToPickup c) =
               calculateDistance (metres (getDistance env)) (pickupLocation order)
                 (currentLocation (cUser c))"
      by (rule dist)
    show "\<forall>c\<in>set (take 5 ?nearby). \<forall>c'\<in>set (drop 5 ?nearby).
             distanceToPickup c \<le> distanceToPickup c'"
      by (rule five)
    show "?nearby = [] \<longrightarrow>
             fst ?run = Inl NoDriversAvailable
           \<and> emitted (snd ?run) = emitted w
           \<and> orders (snd ?run) = orders w"
      using empty by blast
    show "?nearby \<noteq> [] \<and> (\<forall>c\<in>set (take 5 ?nearby). lockedOut now w oid c) \<longrightarrow>
             fst ?run = Inl NoDriverAcceptedOffer
           \<and> emitted (snd ?run) = emitted w
           \<and> orders (snd ?run) = orders w"
      using locked by blast
    show "\<forall>pre drv post.
             take 5 ?nearby = pre @ drv # post
           \<and> (\<forall>c\<in>set pre. lockedOut now w oid c)
           \<and> \<not> lockedOut now w oid drv \<longrightarrow>
             fst ?run =
               Inr \<lparr>success = True, offeredDriver = Some (userId (cUser drv)),
                    lockTimeoutSeconds = Some (lockTimeoutOf env),
                    message = ''Order offered to driver''\<rparr>
           \<and> (\<forall>c\<in>set pre. distanceToPickup c \<le> distanceToPickup drv)
           \<and> emitted (snd ?run) =
               emitted w @ [Emit (''driver:'' @ userId (cUser drv)) ''new_order_offer'' oid]
           \<and> (\<exists>order'. findOneOrder oid (snd ?run) = Some order'
                 \<and> assignmentAttempts order' = assignmentAttempts order @
                      [\<lparr>attemptDriver = userId (cUser drv), attemptedAt = now,
                        response = Pending, respondedAt = None\<rparr>]
                 \<and> isLocked order' \<and> lockedBy order' = Some (userId (cUser drv)))"
    proof (intro allI impI)
      fix pre drv post
      assume a: "take 5 ?nearby = pre @ drv # post
           \<and> (\<forall>c\<in>set pre. lockedOut now w oid c)
           \<and> \<not> lockedOut now w oid drv"
      from a have a1: "take 5 ?nearby = pre @ drv # post" by (rule conjunct1)
      from a have a2: "\<forall>c\<in>set pre. lockedOut now w oid c" by blast
      from a have a3: "\<not> lockedOut now w oid drv" by blast
      show "fst ?run =
               Inr \<lparr>success = True, offeredDriver = Some (userId (cUser drv)),
                    lockTimeoutSeconds = Some (lockTimeoutOf env),
                    message = ''Order offered to driver''\<rparr>
           \<and> (\<forall>c\<in>set pre. distanceToPickup c \<le> distanceToPickup drv)
           \<and> emitted (snd ?run) =
               emitted w @ [Emit (''driver:'' @ userId (cUser drv)) ''new_order_offer'' oid]
           \<and> (\<exists>order'. findOneOrder oid (snd ?run) = Some order'
                 \<and> assignmentAttempts order' = assignmentAttempts order @
                      [\<lparr>attemptDriver = userId (cUser drv), attemptedAt = now,
                        response = Pending, respondedAt = None\<rparr>]
                 \<and> isLocked order' \<and> lockedBy order' = Some (userId (cUser drv)))"
        by (rule offer [OF a1 a2 a3])
    qed
  qed
qed

theorem assignOrder_nearest_first_witness:
  "fst (assignOrder env0 1000 ''ORD-1'' (crowdedWorld [''D1'', ''D2'', ''D3'', ''D4''])) =
     Inr \<lparr>success = True, offeredDriver = Some ''D5'', lockTimeoutSeconds = Some 300,
          message = ''Order offered to driver''\<rparr>
   \<and> emitted (snd (assignOrder env0 1000 ''ORD-1'' (crowdedWorld [''D1'', ''D2'', ''D3'', ''D4''])))
       = [Emit ''driver:D5'' ''new_order_offer'' ''ORD-1'']
   \<and> \<lparr>cUser = driverAt ''D6'' (45 / 1000), distanceToPickup = 9 / 2\<rparr>
       \<in> set (findNearbyDrivers env0 (pickupLocation order0) None
                 (crowdedWorld [''D1'', ''D2'', ''D3'', ''D4'', ''D5'']))
   \<and> \<not> lockedOut 1000 (crowdedWorld [''D1'', ''D2'', ''D3'', ''D4'', ''D5'']) ''ORD-1''
         \<lparr>cUser = driverAt ''D6'' (45 / 1000), distanceToPickup = 9 / 2\<rparr>
   \<and> fst (assignOrder env0 1000 ''ORD-1'' (crowdedWorld [''D1'', ''D2'', ''D3'', ''D4'', ''D5''])) =
       Inl NoDriverAcceptedOffer
   \<and> emitted (snd (assignOrder env0 1000 ''ORD-1'' (crowdedWorld [''D1'', ''D2'', ''D3'', ''D4'', ''D5''])))
       = []"
proof -
  let ?four = "crowdedWorld [''D1'', ''D2'', ''D3'', ''D4'']"
  let ?five = "crowdedWorld [''D1'', ''D2'', ''D3'', ''D4'', ''D5'']"
  let ?c1 = "\<lparr>cUser = driverAt ''D1'' (5 / 1000), distanceToPickup = 1 / 2\<rparr>"
  let ?c2 = "\<lparr>cUser = driverAt ''D2'' (1 / 100), distanceToPickup = 1\<rparr>"
  let ?c3 = "\<lparr>cUser = driverAt ''D3'' (2 / 100), distanceToPickup = 2\<rparr>"
  let ?c4 = "\<lparr>cUser = driverAt ''D4'' (3 / 100), distanceToPickup = 3\<rparr>"
  let ?c5 = "\<lparr>cUser = driverAt ''D5'' (4 / 100), distanceToPickup = 4\<rparr>"
  let ?c6 = "\<lparr>cUser = driverAt ''D6'' (45 / 1000), distanceToPickup = 9 / 2\<rparr>"
  have h1: "redisFaults (crowdedWorld busy) = []" for busy
    by (simp add: crowdedWorld_def world0_def)
  have h2: "findOneOrder ''ORD-1'' (crowdedWorld busy) = Some order0" for busy
    by (simp add: findOneOrder_def crowdedWorld_def world0_def order0_def)
  have h3: "status order0 = ''pending''" by (simp add: order0_def)
  have h4: "\<not> truthy (liveValue 1000 (redisStore ?four (''order_assignment:'' @ ''ORD-1'')))"
    by (simp add: crowdedWorld_def busyKeys_def liveValue_def truthy_def)
  have h5: "\<not> truthy (liveValue 1000 (redisStore ?five (''order_assignment:'' @ ''ORD-1'')))"
    by (simp add: crowdedWorld_def busyKeys_def liveValue_def truthy_def)
  have f: "pickupLocation order0 = \<lparr>latitude = 0, longitude = 0\<rparr>" by (simp add: order0_def)
  have u: "users (crowdedWorld busy) = drivers6" "emitted (crowdedWorld busy) = []" for busy
    by (simp_all add: crowdedWorld_def world0_def)
  have near: "findNearbyDrivers env0 (pickupLocation order0) None (crowdedWorld busy)
                = [?c1, ?c2, ?c3, ?c4, ?c5, ?c6]" for busy
    unfolding f by (rule nearby6) (rule u(1))
  have t: "lockTimeoutOf env0 = 300" by (simp add: lockTimeoutOf_def env0_def)
  have busy4: "lockedOut 1000 ?four ''ORD-1'' ?c1" "lockedOut 1000 ?four ''ORD-1'' ?c2"
    "lockedOut 1000 ?four ''ORD-1'' ?c3" "lockedOut 1000 ?four ''ORD-1'' ?c4"
    "\<not> lockedOut 1000 ?four ''ORD-1'' ?c5"
    by (simp_all add: lockedOut_def crowdedWorld_def busyKeys_def liveValue_def truthy_def driverAt_def)
  have busy5: "lockedOut 1000 ?five ''ORD-1'' ?c1" "lockedOut 1000 ?five ''ORD-1'' ?c2"
    "lockedOut 1000 ?five ''ORD-1'' ?c3" "lockedOut 1000 ?five ''ORD-1'' ?c4"
    "lockedOut 1000 ?five ''ORD-1'' ?c5" "\<not> lockedOut 1000 ?five ''ORD-1'' ?c6"
    by (simp_all add: lockedOut_def crowdedWorld_def busyKeys_def liveValue_def truthy_def driverAt_def)
  have a: "take 5 (findNearbyDrivers env0 (pickupLocation order0) None ?four) = [?c1, ?c2, ?c3, ?c4] @ ?c5 # []
           \<and> (\<forall>c\<in>set [?c1, ?c2, ?c3, ?c4]. lockedOut 1000 ?four ''ORD-1'' c)
           \<and> \<not> lockedOut 1000 ?four ''ORD-1'' ?c5"
    using busy4 by (simp add: near)
  have b: "findNearbyDrivers env0 (pickupLocation order0) None ?five \<noteq> []
           \<and> (\<forall>c\<in>set (take 5 (findNearbyDrivers env0 (pickupLocation order0) None ?five)).
                 lockedOut 1000 ?five ''ORD-1'' c)"
    using busy5 by (simp add: near)
  have member: "?c6 \<in> set (findNearbyDrivers env0 (pickupLocation order0) None ?five)"
    by (simp add: near)
  note offer = assignOrder_nearest_first [OF h1 h2 h3 h4, of env0,
      THEN conjunct2, THEN conjunct2, THEN conjunct2, THEN conjunct2, THEN conjunct2, THEN conjunct2,
      rule_format, of "[?c1, ?c2, ?c3, ?c4]" ?c5 "[]", OF a]
  note refused = assignOrder_nearest_first [OF h1 h2 h3 h5, of env0,
      THEN conjunct2, THEN conjunct2, THEN conjunct2, THEN conjunct2, THEN conjunct2, THEN conjunct1,
      rule_format, OF b]
  have r1: "fst (assignOrder env0 1000 ''ORD-1'' ?four) =
     Inr \<lparr>success = True, offeredDriver = Some ''D5'', lockTimeoutSeconds = Some 300,
          message = ''Order offered to driver''\<rparr>"
    using offer [THEN conjunct1] by (simp add: t driverAt_def)
  have r2: "emitted (snd (assignOrder env0 1000 ''ORD-1'' ?four)) = [Emit ''driver:D5'' ''new_order_offer'' ''ORD-1'']"
    using offer [THEN conjunct2, THEN conjunct2, THEN conjunct1] by (simp add: u driverAt_def)
  have r3: "fst (assignOrder env0 1000 ''ORD-1'' ?five) = Inl NoDriverAcceptedOffer"
    using refused by (rule conjunct1)
  have r4: "emitted (snd (assignOrder env0 1000 ''ORD-1'' ?five)) = []"
    using refused [THEN conjunct2, THEN conjunct1] by (simp add: u)
  from r1 r2 member busy5(6) r3 r4 show ?thesis by (intro conjI)
qed

section \<open>The sweep of expired locks\<close>

text \<open>
  What the sweep does for a stored order with \<^verbatim>\<open>isLocked\<close> true and an expired
  lock (Redis reachable, order ids unique, stored statuses valid): it saves the order
  with its lock fields cleared and its last attempt, if pending, marked as timed out at
  the time of the sweep, and deletes the key \<^verbatim>\<open>order_lock:{orderId}\<close>.  The status
  of the order is unchanged, nothing is scheduled and nothing is emitted.
\<close>

lemma cleanupExpiredLocks_releases:
  assumes reachable: "redisFaults w = []"
    and unique: "distinct (map orderId (orders w))"
    and valid: "\<forall>d\<in>set (orders w). status d \<in> set statusEnum"
    and stored: "order \<in> set (orders w)"
    and expired: "expiredLock now order"
  shows "\<exists>w' order'.
           cleanupExpiredLocks now w = (Inr (), w')
         \<and> findOneOrder (orderId order) w' = Some order'
         \<and> \<not> isLocked order' \<and> lockedBy order' = None \<and> lockExpiration order' = None
         \<and> status order' = status order
         \<and> (assignmentAttempts order \<noteq> [] \<and> response (last (assignmentAttempts order)) = Pending
              \<longrightarrow> assignmentAttempts order' =
                    butlast (assignmentAttempts order) @
                    [(last (assignmentAttempts order))\<lparr>response := Timeout, respondedAt := Some now\<rparr>])
         \<and> (\<not> (assignmentAttempts order \<noteq> [] \<and> response (last (assignmentAttempts order)) = Pending)
              \<longrightarrow> assignmentAttempts order' = assignmentAttempts order)
         \<and> redisStore w' (''order_lock:'' @ orderId order) = None
         \<and> timers w' = timers w \<and> emitted w' = emitted w"
proof -
  let ?ds = "filter (expiredLock now) (orders w)"
  have v: "\<forall>d\<in>set ?ds. status d \<in> set statusEnum" using valid by simp
  have d: "distinct (map orderId ?ds)" using unique by (rule distinct_map_filter)
  have m: "order \<in> set ?ds" using stored expired by simp
  have f: "findOneOrder (orderId order) w = Some order"
    unfolding findOneOrder_def using unique stored by (rule find_distinct)
  from sweepLoop_target [OF reachable v d m f, of now]
  obtain w' where w': "sweepLoop now ?ds w = (Inr (), w')"
      "findOneOrder (orderId order) w' = Some (swept now order)"
      "redisStore w' (''order_lock:'' @ orderId order) = None"
      "timers w' = timers w" "emitted w' = emitted w"
    by auto
  have run: "cleanupExpiredLocks now w = (Inr (), w')"
    using w'(1) by (simp add: cleanupExpiredLocks_def tryCatch_def)
  have a1: "assignmentAttempts order \<noteq> [] \<and> response (last (assignmentAttempts order)) = Pending
              \<longrightarrow> assignmentAttempts (swept now order) =
                    butlast (assignmentAttempts order) @
                    [(last (assignmentAttempts order))\<lparr>response := Timeout, respondedAt := Some now\<rparr>]"
    by (simp add: swept_fields markLastTimeout_def)
  have a2: "\<not> (assignmentAttempts order \<noteq> [] \<and> response (last (assignmentAttempts order)) = Pending)
              \<longrightarrow> assignmentAttempts (swept now order) = assignmentAttempts order"
    by (auto simp add: swept_fields markLastTimeout_def)
  show ?thesis
    apply (rule exI [of _ w'])
    apply (rule exI [of _ "swept now order"])
    using run w' a1 a2 by (simp add: swept_fields)
qed

lemma cleanupExpiredLocks_releases_example:
  "\<exists>w' order'.
     cleanupExpiredLocks 400000 (offeredWorld []) = (Inr (), w')
   \<and> findOneOrder ''ORD-1'' w' = Some order'
   \<and> \<not> isLocked order' \<and> lockedBy order' = None \<and> lockExpiration order' = None
   \<and> status order' = ''pending''
   \<and> redisStore w' ''order_lock:ORD-1'' = None
   \<and> timers w' = [] \<and> emitted w' = []"
proof -
  let ?order = "order0\<lparr>assignmentAttempts := [] @ [pendingAttempt ''D1''],
                   isLocked := True, lockedBy := Some ''D1'', lockExpiration := Some 301000\<rparr>"
  have os: "orders (offeredWorld []) = [?order]" by (simp add: offeredWorld_def)
  have h1: "redisFaults (offeredWorld []) = []" by (simp add: offeredWorld_def)
  have h2: "distinct (map orderId (orders (offeredWorld [])))" by (simp add: os)
  have h3: "\<forall>d\<in>set (orders (offeredWorld [])). status d \<in> set statusEnum"
    by (simp add: os order0_def statusEnum_def)
  have h4: "?order \<in> set (orders (offeredWorld []))" by (simp add: os)
  have h5: "expiredLock 400000 ?order" by (simp add: expiredLock_def)
  have f: "orderId ?order = ''ORD-1''" "status ?order = ''pending''"
    "timers (offeredWorld []) = []" "emitted (offeredWorld []) = []"
    by (simp_all add: order0_def offeredWorld_def)
  from cleanupExpiredLocks_releases [OF h1 h2 h3 h4 h5]
  obtain w' order' where r: "cleanupExpiredLocks 400000 (offeredWorld []) = (Inr (), w')"
    "findOneOrder (orderId ?order) w' = Some order'"
    "\<not> isLocked order'" "lockedBy order' = None" "lockExpiration order' = None"
    "status order' = status ?order"
    "redisStore w' (''order_lock:'' @ orderId ?order) = None"
    "timers w' = timers (offeredWorld [])" "emitted w' = emitted (offeredWorld [])"
    by blast
  show ?thesis
    apply (rule exI [of _ w'])
    apply (rule exI [of _ order'])
    using r by (simp add: f order0_def)
qed

text \<open>
  C4.  The claim: the sweep ends like an implicit decline, and after releasing the
  order takes the same retry-or-fail branch: a new \<^verbatim>\<open>assignOrder\<close> while fewer than
  10 attempts are resolved.  In the world \<open>offeredWorld []\<close> the order is locked for
  \<^verbatim>\<open>D1\<close> until time 301000.  The sweep at time 400000 marks the attempt as timed
  out and leaves the order pending with one resolved attempt, but schedules nothing and
  emits nothing; a decline of the same offer schedules \<^verbatim>\<open>assignOrder\<close> after
  2000 ms.
\<close>

theorem cleanupExpiredLocks_no_retry:
  "map (\<lambda>d. (isLocked d, lockExpiration d)) (orders (offeredWorld [])) = [(True, Some 301000)]
   \<and> map (\<lambda>d. (status d, map response (assignmentAttempts d)))
         (orders (snd (cleanupExpiredLocks 400000 (offeredWorld [])))) = [(''pending'', [Timeout])]
   \<and> timers (snd (cleanupExpiredLocks 400000 (offeredWorld []))) = []
   \<and> emitted (snd (cleanupExpiredLocks 400000 (offeredWorld []))) = []
   \<and> timers (snd (handleDriverResponse 2000 ''ORD-1'' ''D1'' ''decline'' (offeredWorld [])))
       = [(2000, ''ORD-1'')]"
proof -
  let ?w = "offeredWorld []"
  let ?order = "order0\<lparr>assignmentAttempts := [] @ [pendingAttempt ''D1''],
                   isLocked := True, lockedBy := Some ''D1'', lockExpiration := Some 301000\<rparr>"
  have os: "orders ?w = [?order]" "timers ?w = []" "emitted ?w = []" "redisFaults ?w = []"
    by (simp_all add: offeredWorld_def)
  have e: "expiredLock 400000 ?order" by (simp add: expiredLock_def)
  have v: "status ?order \<in> set statusEnum" by (simp add: order0_def statusEnum_def)
  have f: "status ?order = ''pending''" "orderId ?order = ''ORD-1''"
    "assignmentAttempts ?order = [pendingAttempt ''D1'']"
    by (simp_all add: order0_def)
  have sweep: "cleanupExpiredLocks 400000 ?w =
      (Inr (), ?w\<lparr>orders := map (storeDoc (swept 400000 ?order)) (orders ?w),
                   redisStore := (redisStore ?w)(''driver_lock:null'' := None,
                                                 ''order_lock:'' @ orderId ?order := None)\<rparr>)"
    unfolding cleanupExpiredLocks_def tryCatch_def
    using e sweepOrder_run [OF os(4) v, of 400000]
    by (simp add: os(1) bindP_def ret_def)
  have c1: "map (\<lambda>d. (isLocked d, lockExpiration d)) (orders ?w) = [(True, Some 301000)]"
    by (simp add: os)
  have c2: "map (\<lambda>d. (status d, map response (assignmentAttempts d)))
         (orders (snd (cleanupExpiredLocks 400000 ?w))) = [(''pending'', [Timeout])]"
    unfolding sweep
    by (simp add: os(1) storeDoc_def swept_fields f markLastTimeout_def pendingAttempt_def order0_def)
  have c3: "timers (snd (cleanupExpiredLocks 400000 ?w)) = []"
    "emitted (snd (cleanupExpiredLocks 400000 ?w)) = []"
    unfolding sweep by (simp_all add: os)
  have h3: "liveValue 2000 (redisStore ?w (''driver_lock:'' @ ''D1'')) = Some ''ORD-1''"
    using lockKeys_live(1) [of 2000] by (simp add: offeredWorld_def)
  have h4: "liveValue 2000 (redisStore ?w (''order_lock:'' @ ''ORD-1'')) = Some ''D1''"
    using lockKeys_live(2) [of 2000] by (simp add: offeredWorld_def)
  have h5: "''decline'' \<noteq> ''accept''" by simp
  have i: "findIndex (\<lambda>a. attemptDriver a = ''D1'' \<and> response a = Pending) (assignmentAttempts ?order) = Some 0"
    by (simp add: pendingAttempt_def)
  have c4: "timers (snd (handleDriverResponse 2000 ''ORD-1'' ''D1'' ''decline'' ?w)) = [(2000, ''ORD-1'')]"
    unfolding decline_run [OF os(4) offeredWorld_found h3 h4 h5 v]
    by (simp add: os recordAnswer_def Let_def pendingAttempt_def)
  from c1 c2 c3 c4 show ?thesis by blast
qed

theorem cleanupExpiredLocks_no_retry_witness:
  "timers (snd (cleanupExpiredLocks 400000 (offeredWorld []))) = []
   \<and> timers (snd (handleDriverResponse 2000 ''ORD-1'' ''D1'' ''decline'' (offeredWorld [])))
       = [(2000, ''ORD-1'')]"
  using cleanupExpiredLocks_no_retry by blast

end
